theory Spec2Isabelle
  imports Complex_Main "HOL-Library.Multiset"
begin

section \<open>The notebook VGG16\_FeatureExtraction\_OCT2017\_Retina\_Kaggle\<close>

text \<open>
  The notebook fine-tunes a pretrained VGG-16 on four classes of retinal scans. Its own
  code is four pieces: the model creation cell, \<open>visualize_model\<close>, \<open>eval_model\<close> and
  \<open>train_model\<close>. Everything they call (tensors, the network, the loss, the optimizer,
  the data loaders) belongs to the framework and enters the model below as a parameter.
\<close>

subsection \<open>Python errors\<close>

datatype error = IndexError | AttributeError | KeyError | ZeroDivisionError

subsection \<open>Model creation (cells 13 and 15)\<close>

text \<open>
  A parameter object. \<open>requires_grad\<close> is the attribute the framework reads to decide
  whether the parameter is trained. Any other attribute name assigned on the object is
  stored in the object's own dictionary, \<open>extra_attrs\<close>.
\<close>

record parameter =
  requires_grad :: bool
  extra_attrs :: "string \<rightharpoonup> bool"

definition setattr :: "parameter \<Rightarrow> string \<Rightarrow> bool \<Rightarrow> parameter" where
  "setattr p name v =
     (if name = ''requires_grad'' then p\<lparr>requires_grad := v\<rparr>
      else p\<lparr>extra_attrs := (extra_attrs p)(name \<mapsto> v)\<rparr>)"

text \<open>Where the weights of a layer come from: a checkpoint file, or a fresh initialisation.\<close>

datatype weights_src = Checkpoint string | Fresh_init

datatype layer =
    Linear nat nat weights_src
  | ReLU
  | Dropout

record vgg =
  features :: "parameter list"
  classifier :: "layer list"

text \<open>Indexing \<open>vgg16.classifier[6]\<close>: \<open>IndexError\<close> when the classifier is too short.\<close>

definition getitem :: "'a list \<Rightarrow> nat \<Rightarrow> error + 'a" where
  "getitem xs i = (if i < length xs then Inr (xs ! i) else Inl IndexError)"

fun in_features :: "layer \<Rightarrow> error + nat" where
  "in_features (Linear i o' s) = Inr i"
| "in_features l = Inl AttributeError"

fun out_features :: "layer \<Rightarrow> error + nat" where
  "out_features (Linear i o' s) = Inr o'"
| "out_features l = Inl AttributeError"

text \<open>
  The freeze loop of cell 13:
  \<^verbatim>\<open>
  for param in vgg16.features.parameters():
      param.require_grad = False
  \<close>
\<close>

definition freeze_features :: "parameter list \<Rightarrow> parameter list" where
  "freeze_features ps = map (\<lambda>param. setattr param ''require_grad'' False) ps"

text \<open>
  Cell 13 after the pretrained weights are loaded. The first line prints
  \<open>vgg16.classifier[6].out_features\<close>, which already raises when the classifier has no
  linear layer at index 6. \<open>list(...)[:-1]\<close> is \<open>butlast\<close>.
\<close>

definition create_model :: "vgg \<Rightarrow> string list \<Rightarrow> error + vgg" where
  "create_model vgg16 class_names =
     (case getitem (classifier vgg16) 6 of
        Inl e \<Rightarrow> Inl e
      | Inr l6 \<Rightarrow>
          (case out_features l6 of
             Inl e \<Rightarrow> Inl e
           | Inr printed \<Rightarrow>
               (let frozen = vgg16\<lparr>features := freeze_features (features vgg16)\<rparr> in
                case in_features l6 of
                  Inl e \<Rightarrow> Inl e
                | Inr num_features \<Rightarrow>
                    Inr (frozen\<lparr>classifier :=
                           butlast (classifier frozen)
                             @ [Linear num_features (length class_names) Fresh_init]\<rparr>))))"

text \<open>
  Cell 15: \<open>resume_training = False\<close>; when it is set, every layer's weights are
  overwritten from the fine-tuned checkpoint.
\<close>

definition resume_training :: bool where
  "resume_training = False"

fun load_layer :: "string \<Rightarrow> layer \<Rightarrow> layer" where
  "load_layer f (Linear i o' s) = Linear i o' (Checkpoint f)"
| "load_layer f l = l"

definition resume_model :: "bool \<Rightarrow> vgg \<Rightarrow> vgg" where
  "resume_model resume m =
     (if resume
      then m\<lparr>classifier :=
             map (load_layer ''../input/vgg16-transfer-learning-pytorch/VGG16_v2-OCT_Retina.pt'')
               (classifier m)\<rparr>
      else m)"

definition model_adapter :: "vgg \<Rightarrow> string list \<Rightarrow> error + vgg" where
  "model_adapter vgg16 class_names =
     (case create_model vgg16 class_names of
        Inl e \<Rightarrow> Inl e
      | Inr m \<Rightarrow> Inr (resume_model resume_training m))"

text \<open>
  The classifier of torchvision's \<open>vgg16_bn\<close> after loading \<open>vgg16_bn.pth\<close>, and a
  backbone with two feature parameters, both trainable as the framework creates them.
\<close>

definition vgg16_bn_classifier :: "layer list" where
  "vgg16_bn_classifier =
     [Linear 25088 4096 (Checkpoint ''../input/vgg16bn/vgg16_bn.pth''), ReLU, Dropout,
      Linear 4096 4096 (Checkpoint ''../input/vgg16bn/vgg16_bn.pth''), ReLU, Dropout,
      Linear 4096 1000 (Checkpoint ''../input/vgg16bn/vgg16_bn.pth'')]"

definition fresh_parameter :: parameter where
  "fresh_parameter = \<lparr>requires_grad = True, extra_attrs = Map.empty\<rparr>"

definition small_vgg16 :: vgg where
  "small_vgg16 = \<lparr>features = [fresh_parameter, fresh_parameter],
                  classifier = vgg16_bn_classifier\<rparr>"

definition oct_class_names :: "string list" where
  "oct_class_names = [''CNV'', ''DME'', ''DRUSEN'', ''NORMAL'']"

subsection \<open>Tensors in memory\<close>

text \<open>
  Tensors live in a store and are reached through addresses: \<open>vgg.state_dict()\<close> hands out
  references to the model's own tensors, the optimizer updates them in place, and
  \<open>copy.deepcopy\<close> allocates new ones. \<open>used\<close> is the next free address.
\<close>

type_synonym addr = nat

record 't heap =
  cells :: "addr \<Rightarrow> 't"
  used :: nat

definition alloc :: "'t \<Rightarrow> 't heap \<Rightarrow> addr \<times> 't heap" where
  "alloc v h = (used h, h\<lparr>cells := (cells h)(used h := v), used := Suc (used h)\<rparr>)"

definition write_cell :: "addr \<Rightarrow> 't \<Rightarrow> 't heap \<Rightarrow> 't heap" where
  "write_cell a v h = h\<lparr>cells := (cells h)(a := v)\<rparr>"

text \<open>An ordered dictionary from tensor names to tensors, as \<open>state_dict()\<close> returns it.\<close>

type_synonym state_dict = "(string \<times> addr) list"

definition tensor_values :: "state_dict \<Rightarrow> 't heap \<Rightarrow> 't list" where
  "tensor_values sd h = map (\<lambda>(name, a). cells h a) sd"

text \<open>In-place update of the model's tensors, in dictionary order.\<close>

fun store_values :: "state_dict \<Rightarrow> 't list \<Rightarrow> 't heap \<Rightarrow> 't heap" where
  "store_values ((name, a) # sd) (v # vs) h = store_values sd vs (write_cell a v h)"
| "store_values sd vs h = h"

text \<open>\<open>copy.deepcopy(vgg.state_dict())\<close>: every tensor is cloned into a new cell.\<close>

fun deepcopy :: "state_dict \<Rightarrow> 't heap \<Rightarrow> state_dict \<times> 't heap" where
  "deepcopy [] h = ([], h)"
| "deepcopy ((name, a) # sd) h =
     (let (a', h1) = alloc (cells h a) h;
          (sd', h2) = deepcopy sd h1
      in ((name, a') # sd', h2))"

text \<open>
  \<open>vgg.load_state_dict(best_model_wts)\<close>: each tensor of the given dictionary is copied
  into the model's tensor of the same name (\<open>own_state[name].copy_(param)\<close>); a name the
  model does not have, or a name of the model that is missing, raises \<open>KeyError\<close>.
\<close>

fun copy_tensors :: "state_dict \<Rightarrow> state_dict \<Rightarrow> 't heap \<Rightarrow> error + 't heap" where
  "copy_tensors own [] h = Inr h"
| "copy_tensors own ((name, s) # src) h =
     (case map_of own name of
        None \<Rightarrow> Inl KeyError
      | Some a \<Rightarrow> copy_tensors own src (write_cell a (cells h s) h))"

definition load_state_dict :: "state_dict \<Rightarrow> state_dict \<Rightarrow> 't heap \<Rightarrow> error + 't heap" where
  "load_state_dict own src h =
     (case copy_tensors own src h of
        Inl e \<Rightarrow> Inl e
      | Inr h' \<Rightarrow>
          if list_all (\<lambda>name. name \<in> set (map fst src)) (map fst own) then Inr h'
          else Inl KeyError)"

subsection \<open>Data loaders (cell 6)\<close>

text \<open>
  Every loader is built with \<open>batch_size=8, shuffle=True\<close>. A pass over a loader draws a
  new order of the split and cuts it into consecutive batches, the last one possibly
  shorter. \<open>len(dataloader)\<close> is the number of batches.
\<close>

definition batch_size :: nat where
  "batch_size = 8"

function batches :: "nat \<Rightarrow> 'a list \<Rightarrow> 'a list list" where
  "batches n xs = (if n = 0 \<or> xs = [] then [] else take n xs # batches n (drop n xs))"
  by pat_completeness auto
termination
  by (relation "measure (\<lambda>(n, xs). length xs)") auto

declare batches.simps [simp del]

definition dataloader_len :: "nat \<Rightarrow> nat" where
  "dataloader_len n = (n + batch_size - 1) div batch_size"

record 'x image_datasets =
  TRAIN :: "('x \<times> nat) list"
  VAL :: "('x \<times> nat) list"
  TEST :: "('x \<times> nat) list"

subsection \<open>The framework and the running program\<close>

text \<open>
  What the notebook takes from the framework. \<open>shuffle k\<close> is the order drawn by the
  \<open>k\<close>-th pass over a loader. \<open>predict\<close> and \<open>sample_loss\<close> are the network in evaluation
  mode: the arg-max class of one input, and the cross entropy of one input against its
  label, both functions of the tensor values. \<open>train_forward\<close> is a forward pass in
  training mode over a batch (it may update the batch-norm statistics; it yields the
  criterion's value and the arg-max classes). \<open>backward_step\<close> is \<open>loss.backward()\<close>
  followed by \<open>optimizer.step()\<close>. The loss is a float in the notebook and a real number
  here: rounding is not modelled.
\<close>

record ('t, 'x, 'o) framework =
  shuffle :: "nat \<Rightarrow> ('x \<times> nat) list \<Rightarrow> ('x \<times> nat) list"
  predict :: "'t list \<Rightarrow> 'x \<Rightarrow> nat"
  sample_loss :: "'t list \<Rightarrow> 'x \<Rightarrow> nat \<Rightarrow> real"
  train_forward :: "'t list \<Rightarrow> ('x \<times> nat) list \<Rightarrow> 't list \<times> real \<times> nat list"
  backward_step :: "'o \<Rightarrow> 't list \<Rightarrow> ('x \<times> nat) list \<Rightarrow> 'o \<times> 't list"

text \<open>
  The trace of a run: the values the notebook prints, and its calls into the framework.
  \<open>Forward m v n\<close> is a forward pass over \<open>n\<close> inputs with the model's training flag \<open>m\<close>
  and inputs wrapped as \<open>volatile=v\<close> (no gradient is recorded when \<open>v\<close> holds).
  Separator lines and elapsed times are left out.
\<close>

datatype caption = Ground_truth | Prediction

datatype event =
    Print_epoch nat nat
  | Print_training_batch nat real
  | Print_validation_batch nat nat
  | Print_test_batch nat nat
  | Print_epoch_result nat real real real real
  | Print_best_acc real
  | Print_avg_loss_test real
  | Print_avg_acc_test real
  | Zero_grad
  | Forward bool bool nat
  | Backward
  | Optimizer_step
  | Show_databatch caption nat "string list"

text \<open>
  The mutable state: the store, the optimizer's own state, the training flag of the model
  (\<open>vgg.training\<close>), the number of loader passes started so far, and the trace.
\<close>

record ('t, 'o) world =
  heap :: "'t heap"
  optim :: 'o
  training :: bool
  passes :: nat
  trace :: "event list"

definition emit :: "event \<Rightarrow> ('t, 'o) world \<Rightarrow> ('t, 'o) world" where
  "emit e w = w\<lparr>trace := trace w @ [e]\<rparr>"

text \<open>\<open>enumerate(dataloaders[x])\<close>: a new pass, with a new order.\<close>

definition next_pass ::
  "('t, 'x, 'o) framework \<Rightarrow> ('x \<times> nat) list \<Rightarrow> ('t, 'o) world \<Rightarrow>
   ('x \<times> nat) list list \<times> ('t, 'o) world" where
  "next_pass fw split w =
     (batches batch_size (shuffle fw (passes w) split), w\<lparr>passes := Suc (passes w)\<rparr>)"

text \<open>\<open>nn.CrossEntropyLoss()\<close> with its defaults: the mean over the batch.\<close>

definition criterion :: "('t, 'x, 'o) framework \<Rightarrow> 't list \<Rightarrow> ('x \<times> nat) list \<Rightarrow> real" where
  "criterion fw vals b =
     sum_list (map (\<lambda>(x, y). sample_loss fw vals x y) b) / real (length b)"

text \<open>
  \<open>outputs = vgg(inputs)\<close> together with what the notebook reads off the outputs: the
  criterion's value against the labels and \<open>torch.max(outputs.data, 1)\<close>. In evaluation
  mode the pass changes no tensor.
\<close>

definition forward ::
  "('t, 'x, 'o) framework \<Rightarrow> state_dict \<Rightarrow> ('x \<times> nat) list \<Rightarrow> ('t, 'o) world \<Rightarrow>
   ('t, 'o) world \<times> real \<times> nat list" where
  "forward fw vgg b w =
     (if training w then
        (let (vals, loss, preds) = train_forward fw (tensor_values vgg (heap w)) b
         in (w\<lparr>heap := store_values vgg vals (heap w)\<rparr>, loss, preds))
      else
        (w, criterion fw (tensor_values vgg (heap w)) b,
         map (\<lambda>(x, y). predict fw (tensor_values vgg (heap w)) x) b))"

text \<open>\<open>torch.sum(preds == labels.data)\<close>\<close>

definition correct :: "nat list \<Rightarrow> nat list \<Rightarrow> nat" where
  "correct preds labels = length (filter (\<lambda>(p, y). p = y) (zip preds labels))"

subsection \<open>\<open>visualize_model\<close> (cells 8 and 9)\<close>

text \<open>
  \<open>show_databatch(inputs, classes)\<close> draws the grid of the batch under the title
  \<open>[class_names[x] for x in classes]\<close>; a class index outside \<open>class_names\<close> raises.
\<close>

definition show_databatch ::
  "string list \<Rightarrow> caption \<Rightarrow> nat \<Rightarrow> nat list \<Rightarrow> ('t, 'o) world \<Rightarrow> error + ('t, 'o) world" where
  "show_databatch class_names c n classes w =
     (if list_all (\<lambda>x. x < length class_names) classes
      then Inr (emit (Show_databatch c n (map (\<lambda>x. class_names ! x) classes)) w)
      else Inl IndexError)"

text \<open>
  The loop of \<open>visualize_model\<close>; \<open>images_so_far\<close> is carried along, and the \<open>break\<close> comes
  after the whole batch has been shown.
\<close>

fun visualize_loop ::
  "('t, 'x, 'o) framework \<Rightarrow> state_dict \<Rightarrow> string list \<Rightarrow> int \<Rightarrow> ('x \<times> nat) list list \<Rightarrow>
   ('t, 'o) world \<times> nat \<Rightarrow> error + ('t, 'o) world \<times> nat" where
  "visualize_loop fw vgg class_names num_images [] (w, images_so_far) = Inr (w, images_so_far)"
| "visualize_loop fw vgg class_names num_images (b # bs) (w, images_so_far) =
     (let size = length b;
          (w1, loss, preds) = forward fw vgg b w;
          w2 = emit (Forward (training w) True size) w1
      in case show_databatch class_names Ground_truth size (map snd b) w2 of
           Inl e \<Rightarrow> Inl e
         | Inr w3 \<Rightarrow>
             (case show_databatch class_names Prediction size preds w3 of
                Inl e \<Rightarrow> Inl e
              | Inr w4 \<Rightarrow>
                  if int (images_so_far + size) \<ge> num_images
                  then Inr (w4, images_so_far + size)
                  else visualize_loop fw vgg class_names num_images bs
                         (w4, images_so_far + size)))"

definition visualize_model ::
  "('t, 'x, 'o) framework \<Rightarrow> state_dict \<Rightarrow> string list \<Rightarrow> ('x \<times> nat) list \<Rightarrow> int \<Rightarrow>
   ('t, 'o) world \<Rightarrow> error + ('t, 'o) world" where
  "visualize_model fw vgg class_names test num_images w =
     (let was_training = training w;
          w1 = w\<lparr>training := False\<rparr>;
          (bs, w2) = next_pass fw test w1
      in case visualize_loop fw vgg class_names num_images bs (w2, 0) of
           Inl e \<Rightarrow> Inl e
         | Inr (w3, images_so_far) \<Rightarrow> Inr (w3\<lparr>training := was_training\<rparr>))"

text \<open>The test images a trace shows: each batch is counted once, by its prediction grid.\<close>

fun shown :: "event \<Rightarrow> nat" where
  "shown (Show_databatch Prediction n titles) = n"
| "shown e = 0"

definition images_displayed :: "event list \<Rightarrow> nat" where
  "images_displayed tr = sum_list (map shown tr)"

text \<open>The events a call appends to the trace.\<close>

definition emitted :: "('t, 'o) world \<Rightarrow> ('t, 'o) world \<Rightarrow> event list" where
  "emitted w w' = drop (length (trace w)) (trace w')"

subsection \<open>\<open>eval_model\<close> (cell 11)\<close>

text \<open>What a Python call evaluates to, as far as the notebook's functions go.\<close>

datatype pyval = PyNone | PyFloat real | PyTuple "pyval list"

fun test_loop ::
  "('t, 'x, 'o) framework \<Rightarrow> state_dict \<Rightarrow> nat \<Rightarrow> nat \<Rightarrow> ('x \<times> nat) list list \<Rightarrow>
   ('t, 'o) world \<times> real \<times> nat \<Rightarrow> ('t, 'o) world \<times> real \<times> nat" where
  "test_loop fw vgg test_batches i [] (w, loss_test, acc_test) = (w, loss_test, acc_test)"
| "test_loop fw vgg test_batches i (b # bs) (w, loss_test, acc_test) =
     (let w0 = (if i mod 100 = 0 then emit (Print_test_batch i test_batches) w else w);
          w1 = w0\<lparr>training := False\<rparr>;
          (w2, loss, preds) = forward fw vgg b w1;
          w3 = emit (Forward (training w1) True (length b)) w2
      in test_loop fw vgg test_batches (Suc i) bs
           (w3, loss_test + loss, acc_test + correct preds (map snd b)))"

text \<open>
  The function ends with its \<open>print\<close> calls and has no \<open>return\<close> statement. Dividing by
  \<open>dataset_sizes[TEST]\<close> raises when the split is empty.
\<close>

definition eval_model ::
  "('t, 'x, 'o) framework \<Rightarrow> state_dict \<Rightarrow> ('x \<times> nat) list \<Rightarrow> ('t, 'o) world \<Rightarrow>
   error + ('t, 'o) world \<times> pyval" where
  "eval_model fw vgg test w =
     (let test_batches = dataloader_len (length test);
          (bs, w1) = next_pass fw test w;
          (w2, loss_test, acc_test) = test_loop fw vgg test_batches 0 bs (w1, 0, 0)
      in if length test = 0 then Inl ZeroDivisionError
         else
           (let avg_loss = loss_test / real (length test);
                avg_acc = real acc_test / real (length test)
            in Inr (emit (Print_avg_acc_test avg_acc) (emit (Print_avg_loss_test avg_loss) w2),
                    PyNone)))"

subsection \<open>\<open>train_model\<close> (cell 23)\<close>

text \<open>
  The body of the training loop below the \<open>break\<close>: one training step on the batch \<open>b\<close>.
\<close>

definition train_batch ::
  "('t, 'x, 'o) framework \<Rightarrow> state_dict \<Rightarrow> ('x \<times> nat) list \<Rightarrow>
   ('t, 'o) world \<times> real \<times> nat \<Rightarrow> ('t, 'o) world \<times> real \<times> nat" where
  "train_batch fw vgg b st =
     (case st of (w0, loss_train, acc_train) \<Rightarrow>
      let w1 = emit Zero_grad w0;
          (w2, loss, preds) = forward fw vgg b w1;
          w3 = emit (Forward (training w1) False (length b)) w2;
          w4 = emit Backward w3;
          (o', vals) = backward_step fw (optim w4) (tensor_values vgg (heap w4)) b;
          w5 = emit Optimizer_step (w4\<lparr>heap := store_values vgg vals (heap w4), optim := o'\<rparr>)
      in (w5, loss_train + loss, acc_train + correct preds (map snd b)))"

text \<open>
  The training loop of one epoch. The progress line is printed before the test
  \<open>i >= train_batches / 2\<close>, which is a comparison of an integer with a float.
\<close>

fun train_loop ::
  "('t, 'x, 'o) framework \<Rightarrow> state_dict \<Rightarrow> nat \<Rightarrow> nat \<Rightarrow> ('x \<times> nat) list list \<Rightarrow>
   ('t, 'o) world \<times> real \<times> nat \<Rightarrow> ('t, 'o) world \<times> real \<times> nat" where
  "train_loop fw vgg train_batches i [] (w, loss_train, acc_train) = (w, loss_train, acc_train)"
| "train_loop fw vgg train_batches i (b # bs) (w, loss_train, acc_train) =
     (let w0 = (if i mod 100 = 0
                then emit (Print_training_batch i (real train_batches / 2)) w else w)
      in if real i \<ge> real train_batches / 2 then (w0, loss_train, acc_train)
         else train_loop fw vgg train_batches (Suc i) bs
                (train_batch fw vgg b (w0, loss_train, acc_train)))"

fun val_loop ::
  "('t, 'x, 'o) framework \<Rightarrow> state_dict \<Rightarrow> nat \<Rightarrow> nat \<Rightarrow> ('x \<times> nat) list list \<Rightarrow>
   ('t, 'o) world \<times> real \<times> nat \<Rightarrow> ('t, 'o) world \<times> real \<times> nat" where
  "val_loop fw vgg val_batches i [] (w, loss_val, acc_val) = (w, loss_val, acc_val)"
| "val_loop fw vgg val_batches i (b # bs) (w, loss_val, acc_val) =
     (let w0 = (if i mod 100 = 0 then emit (Print_validation_batch i val_batches) w else w);
          w1 = emit Zero_grad w0;
          (w2, loss, preds) = forward fw vgg b w1;
          w3 = emit (Forward (training w1) True (length b)) w2
      in val_loop fw vgg val_batches (Suc i) bs
           (w3, loss_val + loss, acc_val + correct preds (map snd b)))"

text \<open>The two phases of an epoch, each from setting the mode to the end of its loop.\<close>

definition train_phase ::
  "('t, 'x, 'o) framework \<Rightarrow> state_dict \<Rightarrow> nat \<Rightarrow> ('x \<times> nat) list \<Rightarrow> ('t, 'o) world \<Rightarrow>
   ('t, 'o) world \<times> real \<times> nat" where
  "train_phase fw vgg train_batches train w =
     (let w1 = w\<lparr>training := True\<rparr>;
          (bs, w2) = next_pass fw train w1
      in train_loop fw vgg train_batches 0 bs (w2, 0, 0))"

definition val_phase ::
  "('t, 'x, 'o) framework \<Rightarrow> state_dict \<Rightarrow> nat \<Rightarrow> ('x \<times> nat) list \<Rightarrow> ('t, 'o) world \<Rightarrow>
   ('t, 'o) world \<times> real \<times> nat" where
  "val_phase fw vgg val_batches val w =
     (let w1 = w\<lparr>training := False\<rparr>;
          (bs, w2) = next_pass fw val w1
      in val_loop fw vgg val_batches 0 bs (w2, 0, 0))"

text \<open>
  One iteration of \<open>for epoch in range(num_epochs)\<close>. The loop carries the world,
  \<open>best_acc\<close> and \<open>best_model_wts\<close>.
\<close>

definition run_epoch ::
  "('t, 'x, 'o) framework \<Rightarrow> state_dict \<Rightarrow> 'x image_datasets \<Rightarrow> nat \<Rightarrow> nat \<Rightarrow>
   ('t, 'o) world \<times> real \<times> state_dict \<Rightarrow> error + ('t, 'o) world \<times> real \<times> state_dict" where
  "run_epoch fw vgg data num_epochs epoch st =
     (case st of (w, best_acc, best_model_wts) \<Rightarrow>
      let train_batches = dataloader_len (length (TRAIN data));
          val_batches = dataloader_len (length (VAL data));
          w1 = emit (Print_epoch epoch num_epochs) w;
          (w2, loss_train, acc_train) = train_phase fw vgg train_batches (TRAIN data) w1
      in if length (TRAIN data) = 0 then Inl ZeroDivisionError
         else
           (let avg_loss = loss_train * 2 / real (length (TRAIN data));
                avg_acc = real (acc_train * 2) / real (length (TRAIN data));
                (w3, loss_val, acc_val) = val_phase fw vgg val_batches (VAL data) w2
            in if length (VAL data) = 0 then Inl ZeroDivisionError
               else
                 (let avg_loss_val = loss_val / real (length (VAL data));
                      avg_acc_val = real acc_val / real (length (VAL data));
                      w4 = emit (Print_epoch_result epoch avg_loss avg_acc
                                   avg_loss_val avg_acc_val) w3
                  in if avg_acc_val > best_acc
                     then (let (wts, h) = deepcopy vgg (heap w4)
                           in Inr (w4\<lparr>heap := h\<rparr>, avg_acc_val, wts))
                     else Inr (w4, best_acc, best_model_wts))))"

fun epochs_loop ::
  "('t, 'x, 'o) framework \<Rightarrow> state_dict \<Rightarrow> 'x image_datasets \<Rightarrow> nat \<Rightarrow> nat list \<Rightarrow>
   ('t, 'o) world \<times> real \<times> state_dict \<Rightarrow> error + ('t, 'o) world \<times> real \<times> state_dict" where
  "epochs_loop fw vgg data num_epochs [] st = Inr st"
| "epochs_loop fw vgg data num_epochs (epoch # es) st =
     (case run_epoch fw vgg data num_epochs epoch st of
        Inl e \<Rightarrow> Inl e
      | Inr st' \<Rightarrow> epochs_loop fw vgg data num_epochs es st')"

text \<open>\<open>train_model\<close> up to the end of its epoch loop: the world and the two locals.\<close>

definition train_epochs ::
  "('t, 'x, 'o) framework \<Rightarrow> state_dict \<Rightarrow> 'x image_datasets \<Rightarrow> nat \<Rightarrow> ('t, 'o) world \<Rightarrow>
   error + ('t, 'o) world \<times> real \<times> state_dict" where
  "train_epochs fw vgg data num_epochs w =
     (let (best_model_wts, h) = deepcopy vgg (heap w)
      in epochs_loop fw vgg data num_epochs [0..<num_epochs] (w\<lparr>heap := h\<rparr>, 0, best_model_wts))"

text \<open>
  The whole function: \<open>vgg.load_state_dict(best_model_wts)\<close> and \<open>return vgg\<close>. The model
  returned is the one passed in, so the result is the world in which it now lives. The
  scheduler argument is never used by the function and is left out.
\<close>

definition train_model ::
  "('t, 'x, 'o) framework \<Rightarrow> state_dict \<Rightarrow> 'x image_datasets \<Rightarrow> nat \<Rightarrow> ('t, 'o) world \<Rightarrow>
   error + ('t, 'o) world" where
  "train_model fw vgg data num_epochs w =
     (case train_epochs fw vgg data num_epochs w of
        Inl e \<Rightarrow> Inl e
      | Inr (w1, best_acc, best_model_wts) \<Rightarrow>
          (let w2 = emit (Print_best_acc best_acc) w1
           in case load_state_dict vgg best_model_wts (heap w2) of
                Inl e \<Rightarrow> Inl e
              | Inr h \<Rightarrow> Inr (w2\<lparr>heap := h\<rparr>)))"

subsection \<open>A small instance\<close>

text \<open>
  A framework small enough to run by hand. A tensor is a number and so is an image. The
  network predicts the class \<open>(sum of the tensors + image) mod 4\<close>, a sample's loss is 0
  when that prediction is its label and 1 otherwise, every optimizer step adds one to
  every tensor, and the \<open>k\<close>-th pass over a loader delivers the split rotated by \<open>k\<close>.
\<close>

definition toy_fw :: "(nat, nat, nat) framework" where
  "toy_fw =
     \<lparr>shuffle = (\<lambda>k xs. rotate k xs),
      predict = (\<lambda>vals x. (sum_list vals + x) mod 4),
      sample_loss = (\<lambda>vals x y. if (sum_list vals + x) mod 4 = y then 0 else 1),
      train_forward = (\<lambda>vals b. (vals, 1, map (\<lambda>(x, y). (sum_list vals + x) mod 4) b)),
      backward_step = (\<lambda>opt vals b. (Suc opt, map Suc vals))\<rparr>"

definition toy_vgg :: state_dict where
  "toy_vgg = [(''classifier.6.weight'', 0)]"

definition toy_world :: "nat \<Rightarrow> (nat, nat) world" where
  "toy_world k =
     \<lparr>heap = \<lparr>cells = (\<lambda>a. 0), used = 1\<rparr>, optim = 0, training = True, passes = k, trace = []\<rparr>"

text \<open>Nine test images; the network is right on the first eight and wrong on the last.\<close>

definition toy_test :: "(nat \<times> nat) list" where
  "toy_test = [(0, 0), (1, 1), (2, 2), (3, 3), (4, 0), (5, 1), (6, 2), (7, 3), (8, 1)]"

subsection \<open>Reading a trace, and the accuracy of given tensor values\<close>

fun test_loss_line :: "event \<Rightarrow> real list" where
  "test_loss_line (Print_avg_loss_test x) = [x]"
| "test_loss_line e = []"

fun test_acc_line :: "event \<Rightarrow> real list" where
  "test_acc_line (Print_avg_acc_test x) = [x]"
| "test_acc_line e = []"

fun val_acc_line :: "event \<Rightarrow> real list" where
  "val_acc_line (Print_epoch_result epoch avg_loss avg_acc avg_loss_val avg_acc_val) = [avg_acc_val]"
| "val_acc_line e = []"

text \<open>The averaged test loss, test accuracy and validation accuracy lines of a trace.\<close>

definition printed_test_loss :: "event list \<Rightarrow> real list" where
  "printed_test_loss tr = concat (map test_loss_line tr)"

definition printed_test_acc :: "event list \<Rightarrow> real list" where
  "printed_test_acc tr = concat (map test_acc_line tr)"

definition printed_val_acc :: "event list \<Rightarrow> real list" where
  "printed_val_acc tr = concat (map val_acc_line tr)"

text \<open>The forward passes and the optimizer steps of a trace.\<close>

fun is_forward :: "event \<Rightarrow> bool" where
  "is_forward (Forward m v n) = True"
| "is_forward e = False"

definition forward_passes :: "event list \<Rightarrow> event list" where
  "forward_passes tr = filter is_forward tr"

definition optimizer_steps :: "event list \<Rightarrow> nat" where
  "optimizer_steps tr = length (filter (\<lambda>e. e = Optimizer_step) tr)"

text \<open>The forward passes that record no gradient (\<open>volatile=True\<close>).\<close>

fun no_grad_forward :: "event \<Rightarrow> bool" where
  "no_grad_forward (Forward m v n) = v"
| "no_grad_forward e = False"

definition no_grad_passes :: "event list \<Rightarrow> event list" where
  "no_grad_passes tr = filter no_grad_forward tr"

text \<open>
  How many samples of a list the network in evaluation mode, with tensor values \<open>vals\<close>,
  classifies as they are labelled, and that number as a fraction of the list.
\<close>

definition n_correct :: "('t, 'x, 'o) framework \<Rightarrow> 't list \<Rightarrow> ('x \<times> nat) list \<Rightarrow> nat" where
  "n_correct fw vals xs = length (filter (\<lambda>(x, y). predict fw vals x = y) xs)"

definition accuracy :: "('t, 'x, 'o) framework \<Rightarrow> 't list \<Rightarrow> ('x \<times> nat) list \<Rightarrow> real" where
  "accuracy fw vals xs = real (n_correct fw vals xs) / real (length xs)"

text \<open>The world after a first call of \<open>eval_model\<close> on the nine test images.\<close>

definition toy_after_eval :: "(nat, nat) world" where
  "toy_after_eval = fst (projr (eval_model toy_fw toy_vgg toy_test (toy_world 0)))"

definition toy_after_second_eval :: "(nat, nat) world" where
  "toy_after_second_eval = fst (projr (eval_model toy_fw toy_vgg toy_test toy_after_eval))"

text \<open>The world after \<open>visualize_model(vgg16)\<close>, with the default of six images.\<close>

definition toy_after_visualize :: "(nat, nat) world" where
  "toy_after_visualize =
     projr (visualize_model toy_fw toy_vgg oct_class_names toy_test 6 (toy_world 0))"

text \<open>
  Two data sets for the small instance: one with a training split of 1000 images, and one
  with a single training image and a single validation image of class 0.
\<close>

definition toy_data :: "nat image_datasets" where
  "toy_data = \<lparr>TRAIN = replicate 1000 (0, 0), VAL = toy_test, TEST = toy_test\<rparr>"

definition toy_small_data :: "nat image_datasets" where
  "toy_small_data = \<lparr>TRAIN = [(0, 0)], VAL = [(0, 0)], TEST = toy_test\<rparr>"

subsection \<open>Models and snapshots in the store\<close>

text \<open>
  A model in a store: its tensor names are distinct, its tensors are distinct cells, and
  all of them are allocated.
\<close>

definition wf_vgg :: "state_dict \<Rightarrow> 't heap \<Rightarrow> bool" where
  "wf_vgg vgg h \<longleftrightarrow>
     distinct (map fst vgg) \<and> distinct (map snd vgg) \<and> list_all (\<lambda>(name, a). a < used h) vgg"

text \<open>
  A snapshot of the model: a dictionary with the model's names whose tensors are
  allocated cells, none of them a tensor of the model.
\<close>

definition snapshot_of :: "state_dict \<Rightarrow> state_dict \<Rightarrow> 't heap \<Rightarrow> bool" where
  "snapshot_of vgg wts h \<longleftrightarrow>
     map fst wts = map fst vgg
     \<and> list_all (\<lambda>(name, a). a < used h \<and> a \<notin> snd ` set vgg) wts"

text \<open>
  A data set on which the small instance is wrong on the validation image after the first
  epoch and right after the second.
\<close>

definition toy_late_data :: "nat image_datasets" where
  "toy_late_data = \<lparr>TRAIN = [(0, 0)], VAL = [(0, 2)], TEST = toy_test\<rparr>"

text \<open>The world after two epochs of \<open>train_model\<close> on the single-image data set.\<close>

definition toy_trained :: "(nat, nat) world" where
  "toy_trained = projr (train_model toy_fw toy_vgg toy_small_data 2 (toy_world 0))"

text \<open>
  A data set with fifty training images and the nine test images as validation split, and
  the state after one epoch on it: seven training batches, of which four are trained on,
  and two validation batches.
\<close>

definition toy_val_data :: "nat image_datasets" where
  "toy_val_data = \<lparr>TRAIN = replicate 50 (0, 0), VAL = toy_test, TEST = toy_test\<rparr>"

definition toy_epoch :: "(nat, nat) world \<times> real \<times> state_dict" where
  "toy_epoch = projr (run_epoch toy_fw toy_vgg toy_val_data 2 0 (toy_world 0, 0, toy_vgg))"

section \<open>Properties of model creation\<close>

lemma setattr_other_requires_grad:
  "name \<noteq> ''requires_grad'' \<Longrightarrow> requires_grad (setattr p name v) = requires_grad p"
  by (simp add: setattr_def)

lemma freeze_features_requires_grad:
  "map requires_grad (freeze_features ps) = map requires_grad ps"
  by (simp add: freeze_features_def setattr_def)

lemma create_model_features:
  "create_model m cn = Inr m' \<Longrightarrow> features m' = freeze_features (features m)"
  by (auto simp: create_model_def Let_def split: sum.splits)

lemma create_model_classifier:
  "create_model m cn = Inr m' \<Longrightarrow>
   \<exists>i o' s. getitem (classifier m) 6 = Inr (Linear i o' s) \<and>
     classifier m' = butlast (classifier m) @ [Linear i (length cn) Fresh_init]"
proof -
  assume a: "create_model m cn = Inr m'"
  then obtain l6 where l6: "getitem (classifier m) 6 = Inr l6"
    by (auto simp: create_model_def split: sum.splits)
  from a l6 obtain i o' s where lin: "l6 = Linear i o' s"
    by (cases l6) (auto simp: create_model_def)
  from a l6 lin show ?thesis
    by (auto simp: create_model_def Let_def)
qed

lemma model_adapter_requires_grad:
  "model_adapter m cn = Inr m' \<Longrightarrow>
   map requires_grad (features m') = map requires_grad (features m)"
  by (auto simp: model_adapter_def resume_model_def resume_training_def
        create_model_features freeze_features_requires_grad split: sum.splits)

lemma small_vgg16_item6:
  "getitem (classifier small_vgg16) 6
     = Inr (Linear 4096 1000 (Checkpoint ''../input/vgg16bn/vgg16_bn.pth''))"
  by (simp add: getitem_def small_vgg16_def vgg16_bn_classifier_def)

section \<open>Batches\<close>

lemma batches_Nil: "batches n [] = []"
  by (simp add: batches.simps)

lemma batches_step:
  "0 < n \<Longrightarrow> xs \<noteq> [] \<Longrightarrow> batches n xs = take n xs # batches n (drop n xs)"
  by (subst batches.simps) simp

lemma concat_batches: "0 < n \<Longrightarrow> concat (batches n xs) = xs"
proof (induction n xs rule: batches.induct)
  case (1 n xs)
  show ?case
  proof (cases "xs = []")
    case True
    then show ?thesis by (simp add: batches_Nil)
  next
    case False
    with 1 show ?thesis by (simp add: batches_step)
  qed
qed

lemma ceil_div_step:
  assumes "0 < n" "0 < m"
  shows "(m + n - 1) div n = Suc ((m - 1) div n)"
proof -
  have e: "m + n - 1 = (m - 1) + n"
    using assms by arith
  have "(m + n - 1) div n = ((m - 1) + n) div n"
    by (rule arg_cong [OF e])
  also have "\<dots> = Suc ((m - 1) div n)"
    using assms(1) by simp
  finally show ?thesis .
qed

lemma length_batches: "0 < n \<Longrightarrow> length (batches n xs) = (length xs + n - 1) div n"
proof (induction n xs rule: batches.induct)
  case (1 n xs)
  show ?case
  proof (cases "xs = []")
    case True
    with 1(2) show ?thesis by (simp add: batches_Nil)
  next
    case False
    then have pos: "0 < length xs" by simp
    have unfold: "length (batches n xs) = Suc (length (batches n (drop n xs)))"
      using False 1(2) by (simp add: batches_step)
    show ?thesis
    proof (cases "length xs \<le> n")
      case True
      with pos have "length xs - 1 < n" by arith
      then have "(length xs - 1) div n = 0" by simp
      moreover have "batches n (drop n xs) = []"
        using True by (simp add: batches_Nil)
      ultimately show ?thesis
        using unfold ceil_div_step [OF 1(2) pos] by simp
    next
      case gt: False
      have "length (batches n (drop n xs)) = (length (drop n xs) + n - 1) div n"
        using 1 False by simp
      also have "length (drop n xs) + n - 1 = length xs - 1"
        using gt by simp
      finally show ?thesis
        using unfold ceil_div_step [OF 1(2) pos] by simp
    qed
  qed
qed

lemma batches_sizes: "b \<in> set (batches n xs) \<Longrightarrow> b \<noteq> [] \<and> length b \<le> n"
proof (induction n xs rule: batches.induct)
  case (1 n xs)
  show ?case
  proof (cases "n = 0 \<or> xs = []")
    case True
    with 1(2) show ?thesis by (simp add: batches.simps)
  next
    case False
    with 1 show ?thesis by (auto simp: batches_step)
  qed
qed

lemma dataloader_len_batches: "length (batches batch_size xs) = dataloader_len (length xs)"
  by (simp add: length_batches dataloader_len_def batch_size_def)

section \<open>The trace, the forward pass and the visualisation loop\<close>

lemma trace_emit: "trace (emit e w) = trace w @ [e]"
  by (simp add: emit_def)

lemma emit_fields:
  "heap (emit e w) = heap w" "optim (emit e w) = optim w"
  "training (emit e w) = training w" "passes (emit e w) = passes w"
  by (simp_all add: emit_def)

lemma forward_fields:
  assumes "forward fw vgg b w = (w', loss, preds)"
  shows "trace w' = trace w" "training w' = training w" "passes w' = passes w" "optim w' = optim w"
  using assms by (auto simp: forward_def Let_def split: if_splits prod.splits)

lemma forward_eval:
  "\<not> training w \<Longrightarrow>
   forward fw vgg b w =
     (w, criterion fw (tensor_values vgg (heap w)) b,
      map (\<lambda>(x, y). predict fw (tensor_values vgg (heap w)) x) b)"
  by (simp add: forward_def)

lemma show_databatch_Inr:
  assumes "show_databatch cn c n classes w = Inr w'"
  shows "w' = emit (Show_databatch c n (map (\<lambda>x. cn ! x) classes)) w"
  using assms by (simp add: show_databatch_def split: if_splits)

lemma images_displayed_append:
  "images_displayed (xs @ ys) = images_displayed xs + images_displayed ys"
  by (simp add: images_displayed_def)

lemma visualize_loop_Cons:
  assumes "visualize_loop fw vgg cn N (b # bs) (w, k) = Inr (w', k')"
  shows "\<exists>w4 t1 t2.
           trace w4 = trace w @ [Forward (training w) True (length b),
                                 Show_databatch Ground_truth (length b) t1,
                                 Show_databatch Prediction (length b) t2]
         \<and> training w4 = training w
         \<and> (if N \<le> int (k + length b) then w' = w4 \<and> k' = k + length b
            else visualize_loop fw vgg cn N bs (w4, k + length b) = Inr (w', k'))"
proof -
  obtain w1 loss preds where f: "forward fw vgg b w = (w1, loss, preds)"
    by (cases "forward fw vgg b w") auto
  let ?w2 = "emit (Forward (training w) True (length b)) w1"
  from assms f obtain w3 where s1: "show_databatch cn Ground_truth (length b) (map snd b) ?w2 = Inr w3"
    by (auto simp: Let_def split: sum.splits)
  from assms f s1 obtain w4 where s2: "show_databatch cn Prediction (length b) preds w3 = Inr w4"
    by (auto simp: Let_def split: sum.splits)
  have "trace w4 = trace w @ [Forward (training w) True (length b),
           Show_databatch Ground_truth (length b) (map (\<lambda>x. cn ! x) (map snd b)),
           Show_databatch Prediction (length b) (map (\<lambda>x. cn ! x) preds)]"
    using show_databatch_Inr [OF s1] show_databatch_Inr [OF s2] forward_fields(1) [OF f]
    by (simp add: trace_emit)
  moreover have "training w4 = training w"
    using show_databatch_Inr [OF s1] show_databatch_Inr [OF s2] forward_fields(2) [OF f]
    by (simp add: emit_fields)
  moreover have "if N \<le> int (k + length b) then w' = w4 \<and> k' = k + length b
            else visualize_loop fw vgg cn N bs (w4, k + length b) = Inr (w', k')"
    using assms f s1 s2 by (auto simp: Let_def)
  ultimately show ?thesis by blast
qed

lemma visualize_loop_displayed:
  "visualize_loop fw vgg cn N bs (w, k) = Inr (w', k') \<Longrightarrow>
   \<exists>es. trace w' = trace w @ es \<and> k + images_displayed es = k'"
proof (induction bs arbitrary: w k)
  case Nil
  then show ?case by (simp add: images_displayed_def)
next
  case (Cons b bs)
  from visualize_loop_Cons [OF Cons.prems] obtain w4 t1 t2 where
    tr: "trace w4 = trace w @ [Forward (training w) True (length b),
                                 Show_databatch Ground_truth (length b) t1,
                                 Show_databatch Prediction (length b) t2]"
    and rest: "if N \<le> int (k + length b) then w' = w4 \<and> k' = k + length b
            else visualize_loop fw vgg cn N bs (w4, k + length b) = Inr (w', k')"
    by blast
  show ?case
  proof (cases "N \<le> int (k + length b)")
    case True
    with rest tr show ?thesis by (simp add: images_displayed_def)
  next
    case False
    with rest have "visualize_loop fw vgg cn N bs (w4, k + length b) = Inr (w', k')" by simp
    from Cons.IH [OF this] obtain es where
      "trace w' = trace w4 @ es" "k + length b + images_displayed es = k'" by blast
    with tr show ?thesis by (simp add: images_displayed_def)
  qed
qed

lemma visualize_loop_bound:
  "visualize_loop fw vgg cn N bs (w, k) = Inr (w', k') \<Longrightarrow>
   \<forall>b \<in> set bs. length b \<le> n \<Longrightarrow>
   int k' < max N (int k + 1) + int n \<and> k' \<le> k + length (concat bs)"
proof (induction bs arbitrary: w k)
  case Nil
  then show ?case by simp
next
  case (Cons b bs)
  from visualize_loop_Cons [OF Cons.prems(1)] obtain w4 where
    rest: "if N \<le> int (k + length b) then w' = w4 \<and> k' = k + length b
            else visualize_loop fw vgg cn N bs (w4, k + length b) = Inr (w', k')"
    by blast
  have lb: "length b \<le> n" using Cons.prems(2) by simp
  show ?case
  proof (cases "N \<le> int (k + length b)")
    case True
    with rest lb show ?thesis by simp
  next
    case False
    with rest have "visualize_loop fw vgg cn N bs (w4, k + length b) = Inr (w', k')" by simp
    from Cons.IH [OF this] Cons.prems(2)
    have "int k' < max N (int (k + length b) + 1) + int n \<and> k' \<le> k + length b + length (concat bs)"
      by simp
    with False show ?thesis by simp
  qed
qed

lemma next_pass_fields:
  assumes "next_pass fw split w = (bs, w')"
  shows "bs = batches batch_size (shuffle fw (passes w) split)"
    "trace w' = trace w" "training w' = training w" "heap w' = heap w" "optim w' = optim w"
    "passes w' = Suc (passes w)"
  using assms by (auto simp: next_pass_def)

lemma emitted_append: "trace w' = trace w @ es \<Longrightarrow> emitted w w' = es"
  by (simp add: emitted_def)

section \<open>The evaluation loop\<close>

lemma correct_predict:
  "correct (map (\<lambda>(x, y). predict fw vals x) b) (map snd b) = n_correct fw vals b"
proof -
  have "zip (map (\<lambda>(x, y). predict fw vals x) b) (map snd b)
          = map (\<lambda>(x, y). (predict fw vals x, y)) b"
    by (induction b) auto
  then show ?thesis
    by (simp add: correct_def n_correct_def filter_map o_def case_prod_unfold)
qed

lemma n_correct_concat:
  "sum_list (map (n_correct fw vals) bs) = n_correct fw vals (concat bs)"
  by (induction bs) (simp_all add: n_correct_def)

lemma n_correct_mset:
  "mset xs = mset ys \<Longrightarrow> n_correct fw vals xs = n_correct fw vals ys"
proof -
  assume "mset xs = mset ys"
  then have "mset (filter (\<lambda>(x, y). predict fw vals x = y) xs)
              = mset (filter (\<lambda>(x, y). predict fw vals x = y) ys)"
    by simp
  then show ?thesis
    unfolding n_correct_def by (rule mset_eq_length)
qed

lemma n_correct_batches:
  assumes "mset (shuffle fw k xs) = mset xs"
  shows "sum_list (map (n_correct fw vals) (batches batch_size (shuffle fw k xs)))
           = n_correct fw vals xs"
proof -
  have "concat (batches batch_size (shuffle fw k xs)) = shuffle fw k xs"
    by (simp add: concat_batches batch_size_def)
  then show ?thesis
    using n_correct_mset [OF assms] by (simp add: n_correct_concat)
qed

lemma test_loop_Cons:
  "test_loop fw vgg tb i (b # bs) (w, l, a) =
     test_loop fw vgg tb (Suc i) bs
       (emit (Forward False True (length b))
          ((if i mod 100 = 0 then emit (Print_test_batch i tb) w else w)\<lparr>training := False\<rparr>),
        l + criterion fw (tensor_values vgg (heap w)) b,
        a + n_correct fw (tensor_values vgg (heap w)) b)"
  by (simp add: forward_eval Let_def emit_def correct_predict)

lemma printed_test_append:
  "printed_test_loss (xs @ ys) = printed_test_loss xs @ printed_test_loss ys"
  "printed_test_acc (xs @ ys) = printed_test_acc xs @ printed_test_acc ys"
  by (simp_all add: printed_test_loss_def printed_test_acc_def)

lemma forward_passes_append:
  "forward_passes (xs @ ys) = forward_passes xs @ forward_passes ys"
  by (simp add: forward_passes_def)

lemma optimizer_steps_append:
  "optimizer_steps (xs @ ys) = optimizer_steps xs + optimizer_steps ys"
  by (simp add: optimizer_steps_def)

lemma test_loop_result:
  "test_loop fw vgg tb i bs (w, l, a) = (w', l', a') \<Longrightarrow>
   heap w' = heap w \<and> optim w' = optim w \<and> passes w' = passes w
   \<and> l' = l + sum_list (map (criterion fw (tensor_values vgg (heap w))) bs)
   \<and> a' = a + sum_list (map (n_correct fw (tensor_values vgg (heap w))) bs)
   \<and> (\<exists>es. trace w' = trace w @ es \<and> printed_test_loss es = [] \<and> printed_test_acc es = []
          \<and> forward_passes es = map (\<lambda>b. Forward False True (length b)) bs
          \<and> optimizer_steps es = 0)"
proof (induction bs arbitrary: w l a i)
  case Nil
  then show ?case
    by (simp add: printed_test_loss_def printed_test_acc_def forward_passes_def
          optimizer_steps_def)
next
  case (Cons b bs)
  let ?w0 = "if i mod 100 = 0 then emit (Print_test_batch i tb) w else w"
  let ?w1 = "emit (Forward False True (length b)) (?w0\<lparr>training := False\<rparr>)"
  let ?vals = "tensor_values vgg (heap w)"
  have step: "test_loop fw vgg tb (Suc i) bs
                (?w1, l + criterion fw ?vals b, a + n_correct fw ?vals b) = (w', l', a')"
    using Cons.prems by (simp only: test_loop_Cons)
  have h1: "heap ?w1 = heap w" "optim ?w1 = optim w" "passes ?w1 = passes w"
    by (simp_all add: emit_def)
  obtain e0 where e0: "trace ?w1 = trace w @ e0"
    "e0 = (if i mod 100 = 0 then [Print_test_batch i tb] else []) @ [Forward False True (length b)]"
    by (simp add: emit_def)
  from Cons.IH [OF step] obtain es where
    r: "heap w' = heap ?w1" "optim w' = optim ?w1" "passes w' = passes ?w1"
       "l' = l + criterion fw ?vals b + sum_list (map (criterion fw (tensor_values vgg (heap ?w1))) bs)"
       "a' = a + n_correct fw ?vals b + sum_list (map (n_correct fw (tensor_values vgg (heap ?w1))) bs)"
       "trace w' = trace ?w1 @ es" "printed_test_loss es = []" "printed_test_acc es = []"
       "forward_passes es = map (\<lambda>b. Forward False True (length b)) bs"
       "optimizer_steps es = 0"
    by blast
  have "trace w' = trace w @ (e0 @ es)"
    using r(6) e0(1) by simp
  moreover have "printed_test_loss (e0 @ es) = []" "printed_test_acc (e0 @ es) = []"
    "forward_passes (e0 @ es) = map (\<lambda>b. Forward False True (length b)) (b # bs)"
    "optimizer_steps (e0 @ es) = 0"
    using r(7-10) e0(2)
    by (simp_all add: printed_test_append forward_passes_append optimizer_steps_append)
       (simp_all add: printed_test_loss_def printed_test_acc_def forward_passes_def
          optimizer_steps_def)
  ultimately show ?case
    using r(1-5) h1 by (auto simp: add.assoc)
qed

lemma eval_model_result:
  assumes "test \<noteq> []"
  shows "\<exists>w'. eval_model fw vgg test w = Inr (w', PyNone)
           \<and> heap w' = heap w \<and> optim w' = optim w \<and> passes w' = Suc (passes w)
           \<and> printed_test_loss (emitted w w')
               = [sum_list (map (criterion fw (tensor_values vgg (heap w)))
                      (batches batch_size (shuffle fw (passes w) test))) / real (length test)]
           \<and> printed_test_acc (emitted w w')
               = [real (sum_list (map (n_correct fw (tensor_values vgg (heap w)))
                      (batches batch_size (shuffle fw (passes w) test)))) / real (length test)]
           \<and> forward_passes (emitted w w')
               = map (\<lambda>b. Forward False True (length b))
                   (batches batch_size (shuffle fw (passes w) test))
           \<and> optimizer_steps (emitted w w') = 0"
proof -
  let ?bs = "batches batch_size (shuffle fw (passes w) test)"
  let ?w1 = "w\<lparr>passes := Suc (passes w)\<rparr>"
  obtain w2 l a where loop:
    "test_loop fw vgg (dataloader_len (length test)) 0 ?bs (?w1, 0, 0) = (w2, l, a)"
    by (metis prod_cases3)
  from test_loop_result [OF loop] obtain es where
    r: "heap w2 = heap w" "optim w2 = optim w" "passes w2 = Suc (passes w)"
       "l = sum_list (map (criterion fw (tensor_values vgg (heap w))) ?bs)"
       "a = sum_list (map (n_correct fw (tensor_values vgg (heap w))) ?bs)"
       "trace w2 = trace w @ es" "printed_test_loss es = []" "printed_test_acc es = []"
       "forward_passes es = map (\<lambda>b. Forward False True (length b)) ?bs"
       "optimizer_steps es = 0"
    by auto
  let ?w' = "emit (Print_avg_acc_test (real a / real (length test)))
               (emit (Print_avg_loss_test (l / real (length test))) w2)"
  have ev: "eval_model fw vgg test w = Inr (?w', PyNone)"
    using assms loop by (simp add: eval_model_def next_pass_def Let_def)
  have "trace ?w' = trace w @ (es @ [Print_avg_loss_test (l / real (length test)),
                                     Print_avg_acc_test (real a / real (length test))])"
    using r(6) by (simp add: emit_def)
  then have em: "emitted w ?w' = es @ [Print_avg_loss_test (l / real (length test)),
                                     Print_avg_acc_test (real a / real (length test))]"
    by (rule emitted_append)
  have "printed_test_loss (emitted w ?w') = [l / real (length test)]"
    "printed_test_acc (emitted w ?w') = [real a / real (length test)]"
    "forward_passes (emitted w ?w') = map (\<lambda>b. Forward False True (length b)) ?bs"
    "optimizer_steps (emitted w ?w') = 0"
    using r(7-10)
    by (simp_all add: em printed_test_append forward_passes_append optimizer_steps_append)
       (simp_all add: printed_test_loss_def printed_test_acc_def forward_passes_def
          optimizer_steps_def)
  moreover have "heap ?w' = heap w" "optim ?w' = optim w" "passes ?w' = Suc (passes w)"
    using r(1-3) by (simp_all add: emit_def)
  ultimately show ?thesis
    using ev r(4,5) by auto
qed

lemma mset_rotate_list: "mset (rotate n xs) = mset xs"
proof -
  let ?k = "n mod length xs"
  have "mset (rotate n xs) = mset (drop ?k xs) + mset (take ?k xs)"
    by (simp add: rotate_drop_take)
  also have "\<dots> = mset (take ?k xs @ drop ?k xs)"
    by (simp only: mset_append add.commute)
  also have "\<dots> = mset xs"
    by (simp only: append_take_drop_id)
  finally show ?thesis .
qed

lemma toy_shuffle_perm: "mset (shuffle toy_fw k xs) = mset xs"
  by (simp add: toy_fw_def mset_rotate_list)

section \<open>The training loop\<close>

lemma store_values_used: "used (store_values sd vs h) = used h"
  by (induction sd vs h rule: store_values.induct) (simp_all add: write_cell_def)

lemma store_values_frame:
  "a \<notin> snd ` set sd \<Longrightarrow> cells (store_values sd vs h) a = cells h a"
  by (induction sd vs h rule: store_values.induct) (auto simp: write_cell_def)

lemma forward_heap:
  assumes "forward fw vgg b w = (w', loss, preds)"
  shows "used (heap w') = used (heap w)"
    and "a \<notin> snd ` set vgg \<Longrightarrow> cells (heap w') a = cells (heap w) a"
  using assms
  by (auto simp: forward_def Let_def store_values_used store_values_frame
        split: if_splits prod.splits)

lemma train_batch_result:
  assumes "train_batch fw vgg b (w, l, a) = (w', l', a')"
  shows "trace w' = trace w @ [Zero_grad, Forward (training w) False (length b),
                               Backward, Optimizer_step]"
    and "training w' = training w" and "passes w' = passes w"
    and "used (heap w') = used (heap w)"
    and "\<And>c. c \<notin> snd ` set vgg \<Longrightarrow> cells (heap w') c = cells (heap w) c"
proof -
  obtain w2 loss preds where f: "forward fw vgg b (emit Zero_grad w) = (w2, loss, preds)"
    by (metis prod_cases3)
  let ?w4 = "emit Backward (emit (Forward (training w) False (length b)) w2)"
  obtain o' vals where bs: "backward_step fw (optim ?w4) (tensor_values vgg (heap ?w4)) b = (o', vals)"
    by (cases "backward_step fw (optim ?w4) (tensor_values vgg (heap ?w4)) b") auto
  have w': "w' = emit Optimizer_step (?w4\<lparr>heap := store_values vgg vals (heap ?w4), optim := o'\<rparr>)"
    using assms f bs by (simp add: train_batch_def Let_def emit_fields)
  show "trace w' = trace w @ [Zero_grad, Forward (training w) False (length b),
                               Backward, Optimizer_step]"
    using forward_fields(1) [OF f] by (simp add: w' emit_def)
  show "training w' = training w"
    using forward_fields(2) [OF f] by (simp add: w' emit_def)
  show "passes w' = passes w"
    using forward_fields(3) [OF f] by (simp add: w' emit_def)
  show "used (heap w') = used (heap w)"
    using forward_heap(1) [OF f] by (simp add: w' emit_def store_values_used)
  show "cells (heap w') c = cells (heap w) c" if "c \<notin> snd ` set vgg" for c
    using forward_heap(2) [OF f that] that by (simp add: w' emit_def store_values_frame)
qed

lemma break_test: "(real tb / 2 \<le> real i) = ((tb + 1) div 2 \<le> i)"
proof -
  have "(real tb / 2 \<le> real i) = (real tb \<le> real (2 * i))"
    by (simp add: field_simps)
  also have "\<dots> = (tb \<le> 2 * i)"
    by (simp only: of_nat_le_iff)
  also have "\<dots> = ((tb + 1) div 2 \<le> i)"
    by arith
  finally show ?thesis .
qed

lemma train_loop_break:
  "(tb + 1) div 2 \<le> i \<Longrightarrow>
   train_loop fw vgg tb i (b # bs) (w, l, a) =
     ((if i mod 100 = 0 then emit (Print_training_batch i (real tb / 2)) w else w), l, a)"
  unfolding train_loop.simps Let_def break_test by simp

lemma train_loop_step:
  "\<not> (tb + 1) div 2 \<le> i \<Longrightarrow>
   train_loop fw vgg tb i (b # bs) (w, l, a) =
     train_loop fw vgg tb (Suc i) bs
       (train_batch fw vgg b
          ((if i mod 100 = 0 then emit (Print_training_batch i (real tb / 2)) w else w), l, a))"
  unfolding train_loop.simps Let_def break_test by simp

lemma min_step: "\<not> (K::nat) \<le> i \<Longrightarrow> Suc (min L (K - Suc i)) = min (Suc L) (K - i)"
  by arith

lemma printed_val_acc_append:
  "printed_val_acc (xs @ ys) = printed_val_acc xs @ printed_val_acc ys"
  by (simp add: printed_val_acc_def)

lemma no_grad_passes_append:
  "no_grad_passes (xs @ ys) = no_grad_passes xs @ no_grad_passes ys"
  by (simp add: no_grad_passes_def)

lemma train_loop_result:
  "train_loop fw vgg tb i bs (w, l, a) = (w', l', a') \<Longrightarrow>
   training w' = training w \<and> passes w' = passes w \<and> used (heap w') = used (heap w)
   \<and> (\<forall>c. c \<notin> snd ` set vgg \<longrightarrow> cells (heap w') c = cells (heap w) c)
   \<and> (\<exists>es. trace w' = trace w @ es
          \<and> optimizer_steps es = min (length bs) ((tb + 1) div 2 - i)
          \<and> no_grad_passes es = [] \<and> printed_val_acc es = [])"
proof (induction bs arbitrary: w l a i)
  case Nil
  then show ?case
    by (simp add: optimizer_steps_def no_grad_passes_def printed_val_acc_def)
next
  case (Cons b bs)
  let ?w0 = "if i mod 100 = 0 then emit (Print_training_batch i (real tb / 2)) w else w"
  obtain e0 where e0: "trace ?w0 = trace w @ e0"
    "e0 = (if i mod 100 = 0 then [Print_training_batch i (real tb / 2)] else [])"
    by (simp add: emit_def)
  have f0: "training ?w0 = training w" "passes ?w0 = passes w" "heap ?w0 = heap w"
    by (simp_all add: emit_def)
  have p0: "optimizer_steps e0 = 0" "no_grad_passes e0 = []" "printed_val_acc e0 = []"
    by (simp_all add: e0(2) optimizer_steps_def no_grad_passes_def printed_val_acc_def)
  show ?case
  proof (cases "(tb + 1) div 2 \<le> i")
    case True
    have "(w', l', a') = (?w0, l, a)"
      using Cons.prems train_loop_break [OF True, of fw vgg b bs w l a] by (simp only:)
    then have "w' = ?w0" by simp
    with True e0(1) f0 p0 show ?thesis by auto
  next
    case False
    obtain w5 l5 a5 where tb: "train_batch fw vgg b (?w0, l, a) = (w5, l5, a5)"
      by (metis prod_cases3)
    have rec: "train_loop fw vgg tb (Suc i) bs (w5, l5, a5) = (w', l', a')"
      using Cons.prems tb train_loop_step [OF False, of fw vgg b bs w l a] by (simp only:)
    note b = train_batch_result [OF tb]
    from Cons.IH [OF rec] obtain es where
      r: "training w' = training w5" "passes w' = passes w5" "used (heap w') = used (heap w5)"
         "\<forall>c. c \<notin> snd ` set vgg \<longrightarrow> cells (heap w') c = cells (heap w5) c"
         "trace w' = trace w5 @ es"
         "optimizer_steps es = min (length bs) ((tb + 1) div 2 - Suc i)"
         "no_grad_passes es = []" "printed_val_acc es = []"
      by blast
    let ?mid = "[Zero_grad, Forward (training ?w0) False (length b), Backward, Optimizer_step]"
    have tr: "trace w' = trace w @ (e0 @ ?mid @ es)"
      using r(5) b(1) e0(1) by simp
    have pm: "optimizer_steps ?mid = 1" "no_grad_passes ?mid = []" "printed_val_acc ?mid = []"
      by (simp_all add: optimizer_steps_def no_grad_passes_def printed_val_acc_def)
    have "optimizer_steps (e0 @ ?mid @ es) = Suc (optimizer_steps es)"
      using p0(1) pm(1) by (simp only: optimizer_steps_append)
    then have cnt: "optimizer_steps (e0 @ ?mid @ es) = min (length (b # bs)) ((tb + 1) div 2 - i)"
      using r(6) min_step [OF False, of "length bs"] by simp
    have "no_grad_passes (e0 @ ?mid @ es) = []" "printed_val_acc (e0 @ ?mid @ es) = []"
      using r(7,8) p0(2,3) pm(2,3)
      by (simp_all only: no_grad_passes_append printed_val_acc_append append_Nil)
    with tr cnt r(1-4) b(2-5) f0 show ?thesis
      by auto
  qed
qed

lemma val_loop_Cons:
  "\<not> training w \<Longrightarrow>
   val_loop fw vgg vb i (b # bs) (w, l, a) =
     val_loop fw vgg vb (Suc i) bs
       (emit (Forward False True (length b))
          (emit Zero_grad (if i mod 100 = 0 then emit (Print_validation_batch i vb) w else w)),
        l + criterion fw (tensor_values vgg (heap w)) b,
        a + n_correct fw (tensor_values vgg (heap w)) b)"
  by (simp add: forward_eval Let_def emit_def correct_predict)

lemma val_loop_result:
  "\<not> training w \<Longrightarrow> val_loop fw vgg vb i bs (w, l, a) = (w', l', a') \<Longrightarrow>
   heap w' = heap w \<and> optim w' = optim w \<and> passes w' = passes w \<and> \<not> training w'
   \<and> l' = l + sum_list (map (criterion fw (tensor_values vgg (heap w))) bs)
   \<and> a' = a + sum_list (map (n_correct fw (tensor_values vgg (heap w))) bs)
   \<and> (\<exists>es. trace w' = trace w @ es \<and> optimizer_steps es = 0 \<and> printed_val_acc es = []
          \<and> forward_passes es = map (\<lambda>b. Forward False True (length b)) bs
          \<and> no_grad_passes es = map (\<lambda>b. Forward False True (length b)) bs)"
proof (induction bs arbitrary: w l a i)
  case Nil
  then show ?case
    by (simp add: optimizer_steps_def printed_val_acc_def forward_passes_def no_grad_passes_def)
next
  case (Cons b bs)
  let ?w0 = "if i mod 100 = 0 then emit (Print_validation_batch i vb) w else w"
  let ?w1 = "emit (Forward False True (length b)) (emit Zero_grad ?w0)"
  let ?vals = "tensor_values vgg (heap w)"
  have step: "val_loop fw vgg vb (Suc i) bs
                (?w1, l + criterion fw ?vals b, a + n_correct fw ?vals b) = (w', l', a')"
    using Cons.prems(2) val_loop_Cons [OF Cons.prems(1), of fw vgg vb i b bs l a]
    by (simp only:)
  have h1: "heap ?w1 = heap w" "optim ?w1 = optim w" "passes ?w1 = passes w"
    "training ?w1 = training w"
    by (simp_all add: emit_def)
  obtain e0 where e0: "trace ?w1 = trace w @ e0"
    "e0 = (if i mod 100 = 0 then [Print_validation_batch i vb] else [])
          @ [Zero_grad, Forward False True (length b)]"
    by (simp add: emit_def)
  have nt: "\<not> training ?w1"
    using Cons.prems(1) h1(4) by simp
  from Cons.IH [OF nt step] obtain es where
    r: "heap w' = heap ?w1" "optim w' = optim ?w1" "passes w' = passes ?w1" "\<not> training w'"
       "l' = l + criterion fw ?vals b + sum_list (map (criterion fw (tensor_values vgg (heap ?w1))) bs)"
       "a' = a + n_correct fw ?vals b + sum_list (map (n_correct fw (tensor_values vgg (heap ?w1))) bs)"
       "trace w' = trace ?w1 @ es" "optimizer_steps es = 0" "printed_val_acc es = []"
       "forward_passes es = map (\<lambda>b. Forward False True (length b)) bs"
       "no_grad_passes es = map (\<lambda>b. Forward False True (length b)) bs"
    by blast
  have "trace w' = trace w @ (e0 @ es)"
    using r(7) e0(1) by simp
  moreover have "optimizer_steps (e0 @ es) = 0" "printed_val_acc (e0 @ es) = []"
    "forward_passes (e0 @ es) = map (\<lambda>b. Forward False True (length b)) (b # bs)"
    "no_grad_passes (e0 @ es) = map (\<lambda>b. Forward False True (length b)) (b # bs)"
    using r(8-11) e0(2)
    by (simp_all add: printed_val_acc_append forward_passes_append optimizer_steps_append
          no_grad_passes_append)
       (simp_all add: printed_val_acc_def forward_passes_def optimizer_steps_def
          no_grad_passes_def)
  ultimately show ?case
    using r(1-6) h1 by (auto simp: add.assoc)
qed

lemma train_phase_result:
  assumes "train_phase fw vgg tb train w = (w', l, a)"
  shows "passes w' = Suc (passes w) \<and> used (heap w') = used (heap w)
   \<and> (\<forall>c. c \<notin> snd ` set vgg \<longrightarrow> cells (heap w') c = cells (heap w) c)
   \<and> (\<exists>es. trace w' = trace w @ es
          \<and> optimizer_steps es
              = min (length (batches batch_size (shuffle fw (passes w) train))) ((tb + 1) div 2)
          \<and> no_grad_passes es = [] \<and> printed_val_acc es = [])"
proof -
  let ?w2 = "w\<lparr>training := True, passes := Suc (passes w)\<rparr>"
  have "train_loop fw vgg tb 0 (batches batch_size (shuffle fw (passes w) train)) (?w2, 0, 0)
          = (w', l, a)"
    using assms by (simp add: train_phase_def next_pass_def)
  from train_loop_result [OF this] show ?thesis by simp
qed

lemma val_phase_result:
  assumes "val_phase fw vgg vb val w = (w', l, a)"
  shows "heap w' = heap w \<and> optim w' = optim w \<and> passes w' = Suc (passes w) \<and> \<not> training w'
   \<and> l = sum_list (map (criterion fw (tensor_values vgg (heap w)))
            (batches batch_size (shuffle fw (passes w) val)))
   \<and> a = sum_list (map (n_correct fw (tensor_values vgg (heap w)))
            (batches batch_size (shuffle fw (passes w) val)))
   \<and> (\<exists>es. trace w' = trace w @ es \<and> optimizer_steps es = 0 \<and> printed_val_acc es = []
          \<and> forward_passes es
              = map (\<lambda>b. Forward False True (length b))
                  (batches batch_size (shuffle fw (passes w) val))
          \<and> no_grad_passes es
              = map (\<lambda>b. Forward False True (length b))
                  (batches batch_size (shuffle fw (passes w) val)))"
proof -
  let ?w2 = "w\<lparr>training := False, passes := Suc (passes w)\<rparr>"
  have loop: "val_loop fw vgg vb 0 (batches batch_size (shuffle fw (passes w) val)) (?w2, 0, 0)
          = (w', l, a)"
    using assms by (simp add: val_phase_def next_pass_def)
  have "\<not> training ?w2" by simp
  from val_loop_result [OF this loop] show ?thesis by simp
qed

lemma val_loop_events:
  "\<not> training w \<Longrightarrow> val_loop fw vgg vb i bs (w, l, a) = (w', l', a') \<Longrightarrow>
   \<exists>es. trace w' = trace w @ es \<and> Backward \<notin> set es \<and> Optimizer_step \<notin> set es"
proof (induction bs arbitrary: w l a i)
  case Nil
  then show ?case by simp
next
  case (Cons b bs)
  let ?w0 = "if i mod 100 = 0 then emit (Print_validation_batch i vb) w else w"
  let ?w1 = "emit (Forward False True (length b)) (emit Zero_grad ?w0)"
  let ?vals = "tensor_values vgg (heap w)"
  have step: "val_loop fw vgg vb (Suc i) bs
                (?w1, l + criterion fw ?vals b, a + n_correct fw ?vals b) = (w', l', a')"
    using Cons.prems(2) val_loop_Cons [OF Cons.prems(1), of fw vgg vb i b bs l a]
    by (simp only:)
  obtain e0 where e0: "trace ?w1 = trace w @ e0"
    "e0 = (if i mod 100 = 0 then [Print_validation_batch i vb] else [])
          @ [Zero_grad, Forward False True (length b)]"
    by (simp add: emit_def)
  have nt: "\<not> training ?w1"
    using Cons.prems(1) by (simp add: emit_def)
  from Cons.IH [OF nt step] obtain es where
    r: "trace w' = trace ?w1 @ es" "Backward \<notin> set es" "Optimizer_step \<notin> set es"
    by blast
  have "trace w' = trace w @ (e0 @ es)"
    using r(1) e0(1) by simp
  moreover have "Backward \<notin> set (e0 @ es)" "Optimizer_step \<notin> set (e0 @ es)"
    using r(2,3) e0(2) by simp_all
  ultimately show ?case by blast
qed

lemma val_phase_events:
  assumes "val_phase fw vgg vb val w = (w', l, a)"
  shows "\<exists>es. trace w' = trace w @ es \<and> Backward \<notin> set es \<and> Optimizer_step \<notin> set es"
proof -
  let ?w2 = "w\<lparr>training := False, passes := Suc (passes w)\<rparr>"
  have loop: "val_loop fw vgg vb 0 (batches batch_size (shuffle fw (passes w) val)) (?w2, 0, 0)
          = (w', l, a)"
    using assms by (simp add: val_phase_def next_pass_def)
  have "\<not> training ?w2" by simp
  from val_loop_events [OF this loop] show ?thesis by simp
qed

section \<open>One epoch\<close>

lemma run_epoch_result:
  assumes "TRAIN data \<noteq> []" "VAL data \<noteq> []"
  shows "\<exists>w2 lt ac w3 lv av w4.
           train_phase fw vgg (dataloader_len (length (TRAIN data))) (TRAIN data)
               (emit (Print_epoch epoch n) w) = (w2, lt, ac)
         \<and> val_phase fw vgg (dataloader_len (length (VAL data))) (VAL data) w2 = (w3, lv, av)
         \<and> w4 = emit (Print_epoch_result epoch (lt * 2 / real (length (TRAIN data)))
                        (real (ac * 2) / real (length (TRAIN data)))
                        (lv / real (length (VAL data)))
                        (real av / real (length (VAL data)))) w3
         \<and> run_epoch fw vgg data n epoch (w, ba, wts)
             = Inr (if ba < real av / real (length (VAL data))
                    then (w4\<lparr>heap := snd (deepcopy vgg (heap w4))\<rparr>,
                          real av / real (length (VAL data)),
                          fst (deepcopy vgg (heap w4)))
                    else (w4, ba, wts))"
proof -
  obtain w2 lt ac where tp:
    "train_phase fw vgg (dataloader_len (length (TRAIN data))) (TRAIN data)
       (emit (Print_epoch epoch n) w) = (w2, lt, ac)"
    by (metis prod_cases3)
  obtain w3 lv av where vp:
    "val_phase fw vgg (dataloader_len (length (VAL data))) (VAL data) w2 = (w3, lv, av)"
    by (metis prod_cases3)
  show ?thesis
    using assms tp vp
    by (simp add: run_epoch_def Let_def case_prod_unfold)
qed

lemma run_epoch_nonempty:
  "run_epoch fw vgg data n epoch st = Inr st' \<Longrightarrow> TRAIN data \<noteq> [] \<and> VAL data \<noteq> []"
  by (auto simp: run_epoch_def Let_def split: prod.splits if_splits)

lemma run_epoch_trace:
  assumes "run_epoch fw vgg data n epoch (w, ba, wts) = Inr (w', ba', wts')"
  shows "\<exists>w2 lt ac w3 lv av es.
           train_phase fw vgg (dataloader_len (length (TRAIN data))) (TRAIN data)
               (emit (Print_epoch epoch n) w) = (w2, lt, ac)
         \<and> val_phase fw vgg (dataloader_len (length (VAL data))) (VAL data) w2 = (w3, lv, av)
         \<and> trace w' = trace w @ es
         \<and> optimizer_steps es
             = min (length (batches batch_size (shuffle fw (passes w) (TRAIN data))))
                 ((dataloader_len (length (TRAIN data)) + 1) div 2)
         \<and> no_grad_passes es
             = map (\<lambda>b. Forward False True (length b))
                 (batches batch_size (shuffle fw (Suc (passes w)) (VAL data)))
         \<and> printed_val_acc es = [real av / real (length (VAL data))]
         \<and> passes w' = Suc (Suc (passes w))"
proof -
  from run_epoch_nonempty [OF assms] have ne: "TRAIN data \<noteq> []" "VAL data \<noteq> []"
    by simp_all
  from run_epoch_result [OF ne, of fw vgg epoch n w ba wts] obtain w2 lt ac w3 lv av w4 where
    tp: "train_phase fw vgg (dataloader_len (length (TRAIN data))) (TRAIN data)
               (emit (Print_epoch epoch n) w) = (w2, lt, ac)"
    and vp: "val_phase fw vgg (dataloader_len (length (VAL data))) (VAL data) w2 = (w3, lv, av)"
    and w4: "w4 = emit (Print_epoch_result epoch (lt * 2 / real (length (TRAIN data)))
                        (real (ac * 2) / real (length (TRAIN data)))
                        (lv / real (length (VAL data)))
                        (real av / real (length (VAL data)))) w3"
    and re: "run_epoch fw vgg data n epoch (w, ba, wts)
             = Inr (if ba < real av / real (length (VAL data))
                    then (w4\<lparr>heap := snd (deepcopy vgg (heap w4))\<rparr>,
                          real av / real (length (VAL data)),
                          fst (deepcopy vgg (heap w4)))
                    else (w4, ba, wts))"
    by blast
  from train_phase_result [OF tp] obtain e1 where
    t: "passes w2 = Suc (passes w)" "trace w2 = trace w @ [Print_epoch epoch n] @ e1"
       "optimizer_steps e1
          = min (length (batches batch_size (shuffle fw (passes w) (TRAIN data))))
              ((dataloader_len (length (TRAIN data)) + 1) div 2)"
       "no_grad_passes e1 = []" "printed_val_acc e1 = []"
    by (auto simp: emit_def)
  from val_phase_result [OF vp] obtain e2 where
    v: "passes w3 = Suc (passes w2)" "trace w3 = trace w2 @ e2"
       "optimizer_steps e2 = 0" "printed_val_acc e2 = []"
       "no_grad_passes e2
          = map (\<lambda>b. Forward False True (length b))
              (batches batch_size (shuffle fw (passes w2) (VAL data)))"
    by auto
  let ?last = "Print_epoch_result epoch (lt * 2 / real (length (TRAIN data)))
                        (real (ac * 2) / real (length (TRAIN data)))
                        (lv / real (length (VAL data)))
                        (real av / real (length (VAL data)))"
  let ?es = "[Print_epoch epoch n] @ e1 @ e2 @ [?last]"
  have tr4: "trace w4 = trace w @ ?es" "passes w4 = Suc (Suc (passes w))"
    using t(1,2) v(1,2) by (simp_all add: w4 emit_def)
  have w': "trace w' = trace w4" "passes w' = passes w4"
    using assms re by (auto split: if_splits)
  have single: "optimizer_steps [e] = (if e = Optimizer_step then 1 else 0)"
    "no_grad_passes [e] = (if no_grad_forward e then [e] else [])"
    "printed_val_acc [e] = val_acc_line e" for e
    by (simp_all add: optimizer_steps_def no_grad_passes_def printed_val_acc_def)
  have "optimizer_steps ?es = optimizer_steps e1"
    unfolding optimizer_steps_append using v(3) by (simp add: single)
  moreover have "no_grad_passes ?es = no_grad_passes e2"
    unfolding no_grad_passes_append using t(4) by (simp add: single)
  moreover have "printed_val_acc ?es = [real av / real (length (VAL data))]"
    unfolding printed_val_acc_append using t(5) v(4) by (simp add: single)
  ultimately show ?thesis
    using tp vp tr4 w' t(1,3) v(5) by (intro exI [of _ ?es] exI) auto
qed

lemma dataloader_len_ceiling: "dataloader_len n = nat \<lceil>real n / 8\<rceil>"
proof -
  define q where "q = (n + 7) div 8"
  have lo: "n \<le> 8 * q" and hi: "8 * q < n + 8"
    unfolding q_def by arith+
  have "real n \<le> real (8 * q)"
    using lo by (simp only: of_nat_le_iff)
  then have a: "real n / 8 \<le> of_int (int q)"
    by simp
  have "real (8 * q) < real (n + 8)"
    using hi by (simp only: of_nat_less_iff)
  then have b: "of_int (int q) - 1 < real n / 8"
    by simp
  have "\<lceil>real n / 8\<rceil> = int q"
    using b a by (rule ceiling_unique)
  then show ?thesis
    by (simp add: q_def dataloader_len_def batch_size_def)
qed

lemma toy_shuffle_length: "length (shuffle toy_fw k xs) = length xs"
  by (simp add: toy_fw_def)

section \<open>Snapshots in the store\<close>

lemma tensor_values_frame:
  "\<forall>a \<in> snd ` set sd. cells h' a = cells h a \<Longrightarrow> tensor_values sd h' = tensor_values sd h"
  by (auto simp: tensor_values_def)

lemma deepcopy_result:
  "deepcopy sd h = (sd', h') \<Longrightarrow>
   map fst sd' = map fst sd \<and> used h' = used h + length sd
   \<and> (\<forall>c < used h. cells h' c = cells h c)
   \<and> (\<forall>a \<in> snd ` set sd'. used h \<le> a \<and> a < used h')"
proof (induction sd arbitrary: h sd' h')
  case Nil
  then show ?case by simp
next
  case (Cons p sd)
  obtain name a where p: "p = (name, a)" by (cases p)
  let ?h1 = "h\<lparr>cells := (cells h)(used h := cells h a), used := Suc (used h)\<rparr>"
  obtain sd2 h2 where rec: "deepcopy sd ?h1 = (sd2, h2)"
    by (cases "deepcopy sd ?h1")
  have res: "sd' = (name, used h) # sd2" "h' = h2"
    using Cons.prems rec by (simp_all add: p alloc_def)
  have u1: "used ?h1 = Suc (used h)"
    by simp
  have ih:
    "map fst sd2 = map fst sd" "used h2 = used ?h1 + length sd"
    "\<forall>c < used ?h1. cells h2 c = cells ?h1 c"
    "\<forall>a \<in> snd ` set sd2. used ?h1 \<le> a \<and> a < used h2"
    using Cons.IH [OF rec] by blast+
  have "cells h' c = cells h c" if "c < used h" for c
  proof -
    have "cells h2 c = cells ?h1 c"
      using ih(3) that u1 by auto
    with that show ?thesis
      by (simp add: res(2))
  qed
  moreover have "used h \<le> b \<and> b < used h'" if "b \<in> snd ` set sd'" for b
  proof (cases "b = used h")
    case True
    then show ?thesis
      using ih(2) u1 by (simp add: res(2))
  next
    case False
    with that have "b \<in> snd ` set sd2"
      by (auto simp: res(1))
    then show ?thesis
      using ih(4) u1 by (auto simp: res(2))
  qed
  moreover have "map fst sd' = map fst (p # sd)" "used h' = used h + length (p # sd)"
    using ih(1,2) u1 by (simp_all add: res p)
  ultimately show ?case
    by blast
qed

lemma deepcopy_values:
  "deepcopy sd h = (sd', h') \<Longrightarrow> \<forall>a \<in> snd ` set sd. a < used h \<Longrightarrow>
   tensor_values sd' h' = tensor_values sd h"
proof (induction sd arbitrary: h sd' h')
  case Nil
  then show ?case by (simp add: tensor_values_def)
next
  case (Cons p sd)
  obtain name a where p: "p = (name, a)" by (cases p)
  let ?h1 = "h\<lparr>cells := (cells h)(used h := cells h a), used := Suc (used h)\<rparr>"
  obtain sd2 h2 where rec: "deepcopy sd ?h1 = (sd2, h2)"
    by (cases "deepcopy sd ?h1")
  have res: "sd' = (name, used h) # sd2" "h' = h2"
    using Cons.prems(1) rec by (simp_all add: p alloc_def)
  have valid: "\<forall>a \<in> snd ` set sd. a < used h"
    using Cons.prems(2) by simp
  then have "\<forall>a \<in> snd ` set sd. a < used ?h1"
    by auto
  from Cons.IH [OF rec this] have "tensor_values sd2 h2 = tensor_values sd ?h1" .
  also have "\<dots> = tensor_values sd h"
    using valid by (intro tensor_values_frame) auto
  finally have tl: "tensor_values sd2 h2 = tensor_values sd h" .
  have "cells h2 (used h) = cells ?h1 (used h)"
    using deepcopy_result [OF rec] by simp
  then have "cells h2 (used h) = cells h a"
    by simp
  with tl res show ?case
    by (simp add: tensor_values_def p)
qed

lemma same_tensor_same_name:
  assumes "distinct (map snd own)" "(n, a) \<in> set own" "(m, a) \<in> set own"
  shows "n = m"
proof -
  have "inj_on snd (set own)"
    using assms(1) by (simp add: distinct_map)
  from inj_onD [OF this _ assms(2,3)] show ?thesis by simp
qed

lemma copy_tensors_result:
  assumes "distinct (map fst own)" "distinct (map snd own)"
  shows "distinct (map fst src) \<Longrightarrow> set (map fst src) \<subseteq> set (map fst own) \<Longrightarrow>
         \<forall>s \<in> snd ` set src. s \<notin> snd ` set own \<Longrightarrow>
         \<exists>h'. copy_tensors own src h = Inr h' \<and> used h' = used h
           \<and> (\<forall>c. (\<forall>name s. (name, s) \<in> set src \<longrightarrow> (name, c) \<notin> set own)
                  \<longrightarrow> cells h' c = cells h c)
           \<and> (\<forall>name s a. (name, s) \<in> set src \<and> (name, a) \<in> set own
                  \<longrightarrow> cells h' a = cells h s)"
proof (induction src arbitrary: h)
  case Nil
  then show ?case by simp
next
  case (Cons p src)
  obtain n0 s0 where p: "p = (n0, s0)" by (cases p)
  from Cons.prems(2) obtain a0 where a0: "(n0, a0) \<in> set own"
    by (auto simp: p)
  then have look: "map_of own n0 = Some a0"
    using assms(1) by simp
  let ?h1 = "write_cell a0 (cells h s0) h"
  have d: "distinct (map fst src)" and sub: "set (map fst src) \<subseteq> set (map fst own)"
    and apart: "\<forall>s \<in> snd ` set src. s \<notin> snd ` set own"
    using Cons.prems by simp_all
  from Cons.IH [OF d sub apart, of ?h1] obtain h' where
    ih: "copy_tensors own src ?h1 = Inr h'" "used h' = used ?h1"
        "\<forall>c. (\<forall>name s. (name, s) \<in> set src \<longrightarrow> (name, c) \<notin> set own)
                  \<longrightarrow> cells h' c = cells ?h1 c"
        "\<forall>name s a. (name, s) \<in> set src \<and> (name, a) \<in> set own
                  \<longrightarrow> cells h' a = cells ?h1 s"
    by blast
  have run: "copy_tensors own (p # src) h = Inr h'"
    using ih(1) look by (simp add: p)
  have used: "used h' = used h"
    using ih(2) by (simp add: write_cell_def)
  have frame: "cells h' c = cells h c"
    if "\<forall>name s. (name, s) \<in> set (p # src) \<longrightarrow> (name, c) \<notin> set own" for c
  proof -
    have "c \<noteq> a0" using that a0 by (auto simp: p)
    moreover have "cells h' c = cells ?h1 c" using ih(3) that by auto
    ultimately show ?thesis by (simp add: write_cell_def)
  qed
  have copied: "cells h' a = cells h s"
    if "(name, s) \<in> set (p # src)" "(name, a) \<in> set own" for name s a
  proof (cases "(name, s) \<in> set src")
    case True
    then have "cells h' a = cells ?h1 s" using ih(4) that(2) by blast
    moreover have "s \<noteq> a0"
      using apart True a0 by force
    ultimately show ?thesis by (simp add: write_cell_def)
  next
    case False
    with that(1) have e: "name = n0" "s = s0" by (simp_all add: p)
    have "a = a0"
      using eq_key_imp_eq_value [OF assms(1) _ a0] that(2) e(1) by simp
    have "\<forall>name' s'. (name', s') \<in> set src \<longrightarrow> (name', a0) \<notin> set own"
    proof (intro allI impI notI)
      fix name' s'
      assume "(name', s') \<in> set src" "(name', a0) \<in> set own"
      then have "name' = n0"
        using same_tensor_same_name [OF assms(2) _ a0] by simp
      moreover have "n0 \<notin> fst ` set src"
        using Cons.prems(1) by (simp add: p)
      ultimately show False
        using \<open>(name', s') \<in> set src\<close> by force
    qed
    then have "cells h' a0 = cells ?h1 a0" using ih(3) by blast
    then show ?thesis
      by (simp add: write_cell_def \<open>a = a0\<close> e(2))
  qed
  show ?case
    using run used frame copied by blast
qed

lemma list_all_snd: "list_all (\<lambda>(name, a). P a) xs \<longleftrightarrow> (\<forall>a \<in> snd ` set xs. P a)"
  by (induction xs) auto

lemma wf_vgg_iff:
  "wf_vgg vgg h \<longleftrightarrow>
     distinct (map fst vgg) \<and> distinct (map snd vgg) \<and> (\<forall>a \<in> snd ` set vgg. a < used h)"
  by (simp add: wf_vgg_def list_all_snd)

lemma snapshot_of_iff:
  "snapshot_of vgg wts h \<longleftrightarrow>
     map fst wts = map fst vgg
     \<and> (\<forall>a \<in> snd ` set wts. a < used h \<and> a \<notin> snd ` set vgg)"
  by (simp add: snapshot_of_def list_all_snd)

lemma load_state_dict_values:
  assumes "wf_vgg vgg h" "snapshot_of vgg wts h"
  shows "\<exists>h'. load_state_dict vgg wts h = Inr h' \<and> used h' = used h
           \<and> tensor_values vgg h' = tensor_values wts h"
proof -
  have names: "map fst wts = map fst vgg"
    using assms(2) by (simp add: snapshot_of_iff)
  have dv: "distinct (map fst vgg)" "distinct (map snd vgg)"
    using assms(1) by (simp_all add: wf_vgg_iff)
  have apart: "\<forall>s \<in> snd ` set wts. s \<notin> snd ` set vgg"
    using assms(2) by (simp add: snapshot_of_iff)
  from copy_tensors_result [OF dv, of wts h] names dv(1) apart obtain h' where
    c: "copy_tensors vgg wts h = Inr h'" "used h' = used h"
       "\<forall>name s a. (name, s) \<in> set wts \<and> (name, a) \<in> set vgg \<longrightarrow> cells h' a = cells h s"
    by auto
  have load: "load_state_dict vgg wts h = Inr h'"
    using c(1) names by (simp add: load_state_dict_def list_all_iff)
  have len: "length wts = length vgg"
    using names by (metis length_map)
  have "tensor_values vgg h' = tensor_values wts h"
  proof (rule nth_equalityI)
    show "length (tensor_values vgg h') = length (tensor_values wts h)"
      using len by (simp add: tensor_values_def)
  next
    fix i
    assume "i < length (tensor_values vgg h')"
    then have i: "i < length vgg" "i < length wts"
      using len by (simp_all add: tensor_values_def)
    obtain n a where v: "vgg ! i = (n, a)" by (cases "vgg ! i")
    obtain m s where w: "wts ! i = (m, s)" by (cases "wts ! i")
    have "fst (wts ! i) = fst (vgg ! i)"
      using names i by (metis nth_map)
    then have "m = n" by (simp add: v w)
    have "(n, a) \<in> set vgg" "(n, s) \<in> set wts"
      using i v w \<open>m = n\<close> by (metis nth_mem)+
    then have "cells h' a = cells h s"
      using c(3) by blast
    then show "tensor_values vgg h' ! i = tensor_values wts h ! i"
      using i v w by (simp add: tensor_values_def)
  qed
  with load c(2) show ?thesis by blast
qed

lemma run_epoch_step:
  assumes run: "run_epoch fw vgg data n epoch (w, ba, wts) = Inr (w', ba', wts')"
    and wf: "wf_vgg vgg (heap w)" and snap: "snapshot_of vgg wts (heap w)"
  shows "wf_vgg vgg (heap w') \<and> snapshot_of vgg wts' (heap w')
       \<and> passes w' = Suc (Suc (passes w))
       \<and> (\<exists>es acc. trace w' = trace w @ es \<and> printed_val_acc es = [acc]
            \<and> acc = real (sum_list (map (n_correct fw (tensor_values vgg (heap w')))
                       (batches batch_size (shuffle fw (Suc (passes w)) (VAL data)))))
                    / real (length (VAL data))
            \<and> (if ba < acc
                then ba' = acc \<and> tensor_values wts' (heap w') = tensor_values vgg (heap w')
                else ba' = ba \<and> tensor_values wts' (heap w') = tensor_values wts (heap w)))"
proof -
  from run_epoch_nonempty [OF run] have ne: "TRAIN data \<noteq> []" "VAL data \<noteq> []"
    by simp_all
  from run_epoch_trace [OF run] obtain w2 lt ac w3 lv av es where
    tp: "train_phase fw vgg (dataloader_len (length (TRAIN data))) (TRAIN data)
               (emit (Print_epoch epoch n) w) = (w2, lt, ac)"
    and vp: "val_phase fw vgg (dataloader_len (length (VAL data))) (VAL data) w2 = (w3, lv, av)"
    and tr: "trace w' = trace w @ es"
    and pv: "printed_val_acc es = [real av / real (length (VAL data))]"
    and ps: "passes w' = Suc (Suc (passes w))"
    by blast
  let ?acc = "real av / real (length (VAL data))"
  let ?w4 = "emit (Print_epoch_result epoch (lt * 2 / real (length (TRAIN data)))
                        (real (ac * 2) / real (length (TRAIN data)))
                        (lv / real (length (VAL data))) ?acc) w3"
  have re: "Inr (w', ba', wts')
             = Inr (if ba < ?acc
                    then (?w4\<lparr>heap := snd (deepcopy vgg (heap ?w4))\<rparr>, ?acc,
                          fst (deepcopy vgg (heap ?w4)))
                    else (?w4, ba, wts))"
    using run_epoch_result [OF ne, of fw vgg epoch n w ba wts] run tp vp by auto
  have t: "passes w2 = Suc (passes w)" "used (heap w2) = used (heap w)"
    "\<forall>c. c \<notin> snd ` set vgg \<longrightarrow> cells (heap w2) c = cells (heap w) c"
    using train_phase_result [OF tp] by (simp_all add: emit_def)
  have v: "heap w3 = heap w2"
    "av = sum_list (map (n_correct fw (tensor_values vgg (heap w2)))
            (batches batch_size (shuffle fw (passes w2) (VAL data))))"
    using val_phase_result [OF vp] by simp_all
  have h4: "heap ?w4 = heap w2"
    using v(1) by (simp add: emit_def)
  have valid: "\<forall>a \<in> snd ` set vgg. a < used (heap w2)"
    using wf t(2) by (simp add: wf_vgg_iff)
  have wf2: "wf_vgg vgg (heap w2)"
    using wf t(2) by (simp add: wf_vgg_iff)
  have snap2: "snapshot_of vgg wts (heap w2)"
    using snap t(2) by (simp add: snapshot_of_iff)
  have keep: "tensor_values wts (heap w2) = tensor_values wts (heap w)"
    using snap t(3) by (intro tensor_values_frame) (simp add: snapshot_of_iff)
  show ?thesis
  proof (cases "ba < ?acc")
    case True
    obtain sd h' where dc: "deepcopy vgg (heap w2) = (sd, h')"
      by (cases "deepcopy vgg (heap w2)")
    have res: "w' = ?w4\<lparr>heap := h'\<rparr>" "ba' = ?acc" "wts' = sd"
      using re True dc h4 by simp_all
    note d = deepcopy_result [OF dc]
    have hw': "heap w' = h'"
      by (simp add: res(1))
    have same: "tensor_values vgg h' = tensor_values vgg (heap w2)"
      using d valid by (intro tensor_values_frame) auto
    have copy: "tensor_values sd h' = tensor_values vgg (heap w2)"
      using deepcopy_values [OF dc valid] .
    have "wf_vgg vgg h'"
      using wf2 d by (auto simp: wf_vgg_iff)
    moreover have "snapshot_of vgg sd h'"
      using d valid by (fastforce simp: snapshot_of_iff)
    moreover have "?acc = real (sum_list (map (n_correct fw (tensor_values vgg h'))
                       (batches batch_size (shuffle fw (Suc (passes w)) (VAL data)))))
                    / real (length (VAL data))"
      using v(2) t(1) same by simp
    ultimately show ?thesis
      using True tr pv ps res(2,3) hw' same copy by auto
  next
    case False
    have res: "w' = ?w4" "ba' = ba" "wts' = wts"
      using re False by simp_all
    have hw': "heap w' = heap w2"
      using h4 by (simp add: res(1))
    have "?acc = real (sum_list (map (n_correct fw (tensor_values vgg (heap w')))
                       (batches batch_size (shuffle fw (Suc (passes w)) (VAL data)))))
                    / real (length (VAL data))"
      using v(2) t(1) hw' by simp
    then show ?thesis
      using False tr pv ps res(2,3) hw' wf2 snap2 keep by auto
  qed
qed

section \<open>The epoch loop\<close>

lemma epochs_loop_total:
  assumes "TRAIN data \<noteq> []" "VAL data \<noteq> []"
  shows "\<exists>st'. epochs_loop fw vgg data n es st = Inr st'"
proof (induction es arbitrary: st)
  case Nil
  show ?case by (metis epochs_loop.simps(1))
next
  case (Cons epoch es)
  obtain w ba wts where st: "st = (w, ba, wts)"
    by (metis prod_cases3)
  from run_epoch_result [OF assms, of fw vgg epoch n w ba wts]
  obtain st1 where "run_epoch fw vgg data n epoch st = Inr st1"
    unfolding st by blast
  with Cons.IH [of st1] show ?case by simp
qed

lemma epochs_loop_Cons:
  assumes "epochs_loop fw vgg data n (epoch # es) st = Inr st'"
  shows "\<exists>w1 ba1 wts1. run_epoch fw vgg data n epoch st = Inr (w1, ba1, wts1)
           \<and> epochs_loop fw vgg data n es (w1, ba1, wts1) = Inr st'"
  using assms by (cases "run_epoch fw vgg data n epoch st") auto

lemma epochs_loop_keep:
  "epochs_loop fw vgg data n es (w, ba, wts) = Inr (w', ba', wts') \<Longrightarrow>
   wf_vgg vgg (heap w) \<Longrightarrow> snapshot_of vgg wts (heap w) \<Longrightarrow>
   wf_vgg vgg (heap w') \<and> snapshot_of vgg wts' (heap w')
   \<and> (\<exists>tr. trace w' = trace w @ tr \<and> length (printed_val_acc tr) = length es
         \<and> ((\<forall>a \<in> set (printed_val_acc tr). a \<le> ba) \<longrightarrow>
               ba' = ba \<and> tensor_values wts' (heap w') = tensor_values wts (heap w)))"
proof (induction es arbitrary: w ba wts)
  case Nil
  then show ?case by (simp add: printed_val_acc_def)
next
  case (Cons epoch es)
  from epochs_loop_Cons [OF Cons.prems(1)] obtain w1 ba1 wts1 where
    run: "run_epoch fw vgg data n epoch (w, ba, wts) = Inr (w1, ba1, wts1)"
    and rest: "epochs_loop fw vgg data n es (w1, ba1, wts1) = Inr (w', ba', wts')"
    by blast
  from run_epoch_step [OF run Cons.prems(2,3)] obtain e1 acc where
    s: "wf_vgg vgg (heap w1)" "snapshot_of vgg wts1 (heap w1)"
       "trace w1 = trace w @ e1" "printed_val_acc e1 = [acc]"
       "if ba < acc
        then ba1 = acc \<and> tensor_values wts1 (heap w1) = tensor_values vgg (heap w1)
        else ba1 = ba \<and> tensor_values wts1 (heap w1) = tensor_values wts (heap w)"
    by blast
  from Cons.IH [OF rest s(1,2)] obtain tr where
    ih: "wf_vgg vgg (heap w')" "snapshot_of vgg wts' (heap w')"
        "trace w' = trace w1 @ tr" "length (printed_val_acc tr) = length es"
        "(\<forall>a \<in> set (printed_val_acc tr). a \<le> ba1) \<longrightarrow>
               ba' = ba1 \<and> tensor_values wts' (heap w') = tensor_values wts1 (heap w1)"
    by blast
  have tr: "trace w' = trace w @ (e1 @ tr)"
    using s(3) ih(3) by simp
  have pr: "printed_val_acc (e1 @ tr) = acc # printed_val_acc tr"
    using s(4) by (simp add: printed_val_acc_append)
  have "ba' = ba \<and> tensor_values wts' (heap w') = tensor_values wts (heap w)"
    if "\<forall>a \<in> set (printed_val_acc (e1 @ tr)). a \<le> ba"
  proof -
    from that pr have le: "acc \<le> ba" "\<forall>a \<in> set (printed_val_acc tr). a \<le> ba"
      by simp_all
    from le(1) s(5) have "ba1 = ba" "tensor_values wts1 (heap w1) = tensor_values wts (heap w)"
      by simp_all
    with ih(5) le(2) show ?thesis by simp
  qed
  moreover have "length (printed_val_acc (e1 @ tr)) = length (epoch # es)"
    using pr ih(4) by simp
  ultimately show ?case
    using ih(1,2) tr by blast
qed

lemma accuracy_batches:
  assumes "mset (shuffle fw k xs) = mset xs"
  shows "real (sum_list (map (n_correct fw vals) (batches batch_size (shuffle fw k xs))))
           / real (length xs) = accuracy fw vals xs"
  by (simp add: n_correct_batches [OF assms] accuracy_def)

lemma epochs_loop_best:
  "epochs_loop fw vgg data n es (w, ba, wts) = Inr (w', ba', wts') \<Longrightarrow>
   wf_vgg vgg (heap w) \<Longrightarrow> snapshot_of vgg wts (heap w) \<Longrightarrow>
   \<forall>k. mset (shuffle fw k (VAL data)) = mset (VAL data) \<Longrightarrow>
   ba \<le> accuracy fw (tensor_values wts (heap w)) (VAL data) \<Longrightarrow>
   ba \<le> ba' \<and> ba' \<le> accuracy fw (tensor_values wts' (heap w')) (VAL data)
   \<and> (\<exists>tr. trace w' = trace w @ tr \<and> (\<forall>a \<in> set (printed_val_acc tr). a \<le> ba'))"
proof (induction es arbitrary: w ba wts)
  case Nil
  then show ?case by (simp add: printed_val_acc_def)
next
  case (Cons epoch es)
  from epochs_loop_Cons [OF Cons.prems(1)] obtain w1 ba1 wts1 where
    run: "run_epoch fw vgg data n epoch (w, ba, wts) = Inr (w1, ba1, wts1)"
    and rest: "epochs_loop fw vgg data n es (w1, ba1, wts1) = Inr (w', ba', wts')"
    by blast
  from run_epoch_step [OF run Cons.prems(2,3)] obtain e1 acc where
    s: "wf_vgg vgg (heap w1)" "snapshot_of vgg wts1 (heap w1)"
       "trace w1 = trace w @ e1" "printed_val_acc e1 = [acc]"
       "acc = real (sum_list (map (n_correct fw (tensor_values vgg (heap w1)))
                       (batches batch_size (shuffle fw (Suc (passes w)) (VAL data)))))
                    / real (length (VAL data))"
       "if ba < acc
        then ba1 = acc \<and> tensor_values wts1 (heap w1) = tensor_values vgg (heap w1)
        else ba1 = ba \<and> tensor_values wts1 (heap w1) = tensor_values wts (heap w)"
    by blast
  have p: "mset (shuffle fw (Suc (passes w)) (VAL data)) = mset (VAL data)"
    using Cons.prems(4) by simp
  have acc: "acc = accuracy fw (tensor_values vgg (heap w1)) (VAL data)"
    using s(5) accuracy_batches [OF p] by simp
  have b1: "ba \<le> ba1" "acc \<le> ba1"
    "ba1 \<le> accuracy fw (tensor_values wts1 (heap w1)) (VAL data)"
    using s(6) acc Cons.prems(5) by (auto split: if_splits)
  from Cons.IH [OF rest s(1,2) Cons.prems(4) b1(3)] obtain tr where
    ih: "ba1 \<le> ba'" "ba' \<le> accuracy fw (tensor_values wts' (heap w')) (VAL data)"
        "trace w' = trace w1 @ tr" "\<forall>a \<in> set (printed_val_acc tr). a \<le> ba'"
    by blast
  have "trace w' = trace w @ (e1 @ tr)"
    using s(3) ih(3) by simp
  moreover have "\<forall>a \<in> set (printed_val_acc (e1 @ tr)). a \<le> ba'"
    using s(4) ih(1,4) b1(2) by (simp add: printed_val_acc_append)
  ultimately show ?case
    using ih(1,2) b1(1) by (metis order_trans)
qed

lemma train_epochs_start:
  assumes "deepcopy vgg h = (wts0, h0)" "wf_vgg vgg h"
  shows "wf_vgg vgg h0" "snapshot_of vgg wts0 h0"
    "tensor_values wts0 h0 = tensor_values vgg h"
proof -
  note d = deepcopy_result [OF assms(1)]
  have valid: "\<forall>a \<in> snd ` set vgg. a < used h"
    using assms(2) by (simp add: wf_vgg_iff)
  show "wf_vgg vgg h0"
    using assms(2) d by (auto simp: wf_vgg_iff)
  show "snapshot_of vgg wts0 h0"
    using d valid by (fastforce simp: snapshot_of_iff)
  show "tensor_values wts0 h0 = tensor_values vgg h"
    using deepcopy_values [OF assms(1) valid] .
qed

lemma accuracy_nonneg: "0 \<le> accuracy fw vals xs"
  by (simp add: accuracy_def)

lemma train_model_Inr:
  assumes "train_model fw vgg data n w = Inr w'"
  shows "\<exists>wts0 h0 w1 ba wts h.
           deepcopy vgg (heap w) = (wts0, h0)
         \<and> epochs_loop fw vgg data n [0..<n] (w\<lparr>heap := h0\<rparr>, 0, wts0) = Inr (w1, ba, wts)
         \<and> train_epochs fw vgg data n w = Inr (w1, ba, wts)
         \<and> load_state_dict vgg wts (heap w1) = Inr h
         \<and> w' = (emit (Print_best_acc ba) w1)\<lparr>heap := h\<rparr>"
proof -
  obtain wts0 h0 where dc: "deepcopy vgg (heap w) = (wts0, h0)"
    by (cases "deepcopy vgg (heap w)")
  from assms obtain w1 ba wts where te: "train_epochs fw vgg data n w = Inr (w1, ba, wts)"
    by (auto simp: train_model_def split: sum.splits)
  then have el: "epochs_loop fw vgg data n [0..<n] (w\<lparr>heap := h0\<rparr>, 0, wts0) = Inr (w1, ba, wts)"
    using dc by (simp add: train_epochs_def)
  from assms te obtain h where
    "load_state_dict vgg wts (heap w1) = Inr h" "w' = (emit (Print_best_acc ba) w1)\<lparr>heap := h\<rparr>"
    by (auto simp: train_model_def Let_def emit_def split: sum.splits)
  with dc te el show ?thesis by blast
qed

section \<open>The claims about model creation\<close>

text \<open>
  C1. The claim: after the Model Adapter runs, every parameter of the backbone's
  feature-extraction layers is marked non-trainable. The freeze loop assigns the
  attribute \<open>require_grad\<close>; the trainable flag is \<open>requires_grad\<close>. On the backbone with
  two feature parameters the adapter succeeds, both flags are still set, and both
  parameters carry the new attribute \<open>require_grad = False\<close>.
\<close>

theorem model_adapter_features_still_trainable:
  "\<not> isl (model_adapter small_vgg16 oct_class_names)
   \<and> map requires_grad (features (projr (model_adapter small_vgg16 oct_class_names)))
       = [True, True]
   \<and> map (\<lambda>param. extra_attrs param ''require_grad'')
         (features (projr (model_adapter small_vgg16 oct_class_names)))
       = [Some False, Some False]"
proof -
  obtain m where m: "model_adapter small_vgg16 oct_class_names = Inr m"
    using small_vgg16_item6 by (simp add: model_adapter_def create_model_def)
  have "map requires_grad (features small_vgg16) = [True, True]"
    by (simp add: small_vgg16_def fresh_parameter_def)
  then have flags: "map requires_grad (features m) = [True, True]"
    by (simp add: model_adapter_requires_grad [OF m])
  have "features m = freeze_features (features small_vgg16)"
    using m
    by (auto simp: model_adapter_def resume_model_def resume_training_def
          create_model_features split: sum.splits)
  then have "map (\<lambda>param. extra_attrs param ''require_grad'') (features m)
               = [Some False, Some False]"
    by (simp add: freeze_features_def setattr_def small_vgg16_def)
  with flags show ?thesis
    by (simp add: m)
qed

text \<open>
  C6. After the Model Adapter runs on a backbone whose \<open>classifier[6]\<close> is a linear layer
  of input width \<open>num_features\<close>, the last layer of the classifier is a freshly initialised
  linear layer from \<open>num_features\<close> to the number of class names; the layers before it are
  kept.
\<close>

theorem model_adapter_final_layer:
  assumes "getitem (classifier vgg16) 6 = Inr (Linear num_features n_out src)"
  shows "\<exists>m. model_adapter vgg16 class_names = Inr m
             \<and> last (classifier m) = Linear num_features (length class_names) Fresh_init
             \<and> butlast (classifier m) = butlast (classifier vgg16)"
  using assms
  by (simp add: model_adapter_def create_model_def resume_model_def resume_training_def)

theorem model_adapter_final_layer_witness:
  "getitem (classifier small_vgg16) 6
     = Inr (Linear 4096 1000 (Checkpoint ''../input/vgg16bn/vgg16_bn.pth''))
   \<and> (\<exists>m. model_adapter small_vgg16 oct_class_names = Inr m
          \<and> last (classifier m) = Linear 4096 4 Fresh_init
          \<and> butlast (classifier m) = butlast (classifier small_vgg16))"
proof -
  have len: "length oct_class_names = 4"
    by (simp add: oct_class_names_def)
  show ?thesis
    using model_adapter_final_layer [OF small_vgg16_item6, of oct_class_names]
    by (simp add: small_vgg16_item6 len)
qed

section \<open>The claims about \<open>visualize_model\<close>\<close>

text \<open>
  C8. The claim: the number of images \<open>visualize_model\<close> displays is at most the image
  count \<open>n\<close> it is called with. The loop shows whole batches and tests the count after
  each: called with 6 on the nine test images it shows the first batch, 8 images.
\<close>

theorem visualize_model_six_counterexample:
  "\<not> isl (visualize_model toy_fw toy_vgg oct_class_names toy_test 6 (toy_world 0))
   \<and> images_displayed (emitted (toy_world 0) toy_after_visualize) = 8
   \<and> \<not> int (images_displayed (emitted (toy_world 0) toy_after_visualize)) \<le> 6"
  by code_simp

text \<open>
  C8, amended. When \<open>visualize_model\<close> returns, the number of images it has displayed is
  less than \<open>max n 1\<close> plus the batch size: fewer than \<open>n + 8\<close> for a positive \<open>n\<close>.
\<close>

theorem visualize_model_bound:
  assumes "visualize_model fw vgg class_names test num_images w = Inr w'"
  shows "int (images_displayed (emitted w w')) < max num_images 1 + int batch_size"
proof -
  obtain bs w2 where np: "next_pass fw test (w\<lparr>training := False\<rparr>) = (bs, w2)"
    by (cases "next_pass fw test (w\<lparr>training := False\<rparr>)") auto
  from assms np obtain w3 k where
    loop: "visualize_loop fw vgg class_names num_images bs (w2, 0) = Inr (w3, k)"
    and w': "w' = w3\<lparr>training := training w\<rparr>"
    by (auto simp: visualize_model_def Let_def split: sum.splits)
  have tr2: "trace w2 = trace w"
    using next_pass_fields(2) [OF np] by simp
  from visualize_loop_displayed [OF loop] obtain es where
    es: "trace w3 = trace w2 @ es" and k: "images_displayed es = k" by auto
  have em: "emitted w w' = es"
    using es tr2 w' by (simp add: emitted_def)
  have "\<forall>b \<in> set bs. length b \<le> batch_size"
    using next_pass_fields(1) [OF np] batches_sizes by blast
  from visualize_loop_bound [OF loop this] have "int k < max num_images 1 + int batch_size"
    by simp
  with em k show ?thesis by simp
qed

theorem visualize_model_bound_witness:
  "visualize_model toy_fw toy_vgg oct_class_names toy_test 6 (toy_world 0)
     = Inr (projr (visualize_model toy_fw toy_vgg oct_class_names toy_test 6 (toy_world 0)))
   \<and> int (images_displayed (emitted (toy_world 0)
        (projr (visualize_model toy_fw toy_vgg oct_class_names toy_test 6 (toy_world 0)))))
       < max 6 1 + int batch_size"
proof -
  have "\<not> isl (visualize_model toy_fw toy_vgg oct_class_names toy_test 6 (toy_world 0))"
    by code_simp
  then have r: "visualize_model toy_fw toy_vgg oct_class_names toy_test 6 (toy_world 0)
     = Inr (projr (visualize_model toy_fw toy_vgg oct_class_names toy_test 6 (toy_world 0)))"
    by simp
  show ?thesis
    using r visualize_model_bound [OF r] by simp
qed

text \<open>
  C9. When \<open>visualize_model\<close> returns, the model's training flag is what it was on entry:
  it is saved in \<open>was_training\<close>, cleared for the loop, and set back at the end.
\<close>

theorem visualize_model_restores_mode:
  "visualize_model fw vgg class_names test num_images w = Inr w' \<Longrightarrow> training w' = training w"
  by (auto simp: visualize_model_def Let_def split: prod.splits sum.splits)

theorem visualize_model_restores_mode_witness:
  "visualize_model toy_fw toy_vgg oct_class_names toy_test 32 (toy_world 0)
     = Inr (projr (visualize_model toy_fw toy_vgg oct_class_names toy_test 32 (toy_world 0)))
   \<and> training (projr (visualize_model toy_fw toy_vgg oct_class_names toy_test 32 (toy_world 0)))
       = training (toy_world 0)"
proof -
  have "\<not> isl (visualize_model toy_fw toy_vgg oct_class_names toy_test 32 (toy_world 0))"
    by code_simp
  then have r: "visualize_model toy_fw toy_vgg oct_class_names toy_test 32 (toy_world 0)
     = Inr (projr (visualize_model toy_fw toy_vgg oct_class_names toy_test 32 (toy_world 0)))"
    by simp
  show ?thesis
    using r visualize_model_restores_mode [OF r] by simp
qed

section \<open>The claims about \<open>eval_model\<close>\<close>




text \<open>
  C5. The claim: two calls of \<open>eval_model\<close> on the same model and test split give the same
  averaged accuracy and the same averaged loss, whatever order the shuffled loader
  delivers. \<open>eval_model\<close> adds the criterion's value of each batch, which is the mean over
  the batch, and divides the sum by the number of test samples under the label
  \<open>Avg loss\<close>; a short last batch then weighs its samples more than a full one. Two calls
  in a row on the nine test images, the loader delivering the split in order and then
  rotated by one, both succeed, change no tensor and print the accuracy 8/9; the first
  prints the loss 1/9, the second 1/72.
\<close>

theorem eval_model_loss_depends_on_order:
  "\<not> isl (eval_model toy_fw toy_vgg toy_test (toy_world 0))
   \<and> \<not> isl (eval_model toy_fw toy_vgg toy_test toy_after_eval)
   \<and> heap toy_after_eval = heap (toy_world 0)
   \<and> heap toy_after_second_eval = heap (toy_world 0)
   \<and> printed_test_acc (emitted (toy_world 0) toy_after_eval) = [8 / 9]
   \<and> printed_test_acc (emitted toy_after_eval toy_after_second_eval) = [8 / 9]
   \<and> printed_test_loss (emitted (toy_world 0) toy_after_eval) = [1 / 9]
   \<and> printed_test_loss (emitted toy_after_eval toy_after_second_eval) = [1 / 72]"
proof -
  have ne: "toy_test \<noteq> []"
    by (simp add: toy_test_def)
  have h1: "heap toy_after_eval = heap (toy_world 0)"
    using eval_model_result [OF ne, of toy_fw toy_vgg "toy_world 0"]
    by (auto simp: toy_after_eval_def)
  have "heap toy_after_second_eval = heap toy_after_eval"
    using eval_model_result [OF ne, of toy_fw toy_vgg toy_after_eval]
    by (auto simp: toy_after_second_eval_def)
  with h1 have h2: "heap toy_after_second_eval = heap (toy_world 0)"
    by simp
  have "\<not> isl (eval_model toy_fw toy_vgg toy_test (toy_world 0))"
    by code_simp
  moreover have "\<not> isl (eval_model toy_fw toy_vgg toy_test toy_after_eval)"
    by code_simp
  moreover have "printed_test_acc (emitted (toy_world 0) toy_after_eval) = [8 / 9]"
    by code_simp
  moreover have "printed_test_acc (emitted toy_after_eval toy_after_second_eval) = [8 / 9]"
    by code_simp
  moreover have "printed_test_loss (emitted (toy_world 0) toy_after_eval) = [1 / 9]"
    by code_simp
  moreover have "printed_test_loss (emitted toy_after_eval toy_after_second_eval) = [1 / 72]"
    by code_simp
  ultimately show ?thesis
    using h1 h2 by simp
qed

section \<open>The claims about the phases of an epoch\<close>

text \<open>
  C3. With a training split of 1000 images (and the batch size 8) every epoch, whatever
  the state it starts in, has 125 training batches and performs exactly 63 training
  steps, which is \<open>ceil(500/8)\<close>; its validation pass performs \<open>ceil(val_size/8)\<close>
  forward passes. A pass over a loader delivers as many samples as the split has.
\<close>

theorem run_epoch_steps:
  assumes "length (TRAIN data) = 1000" "VAL data \<noteq> []"
    and "length (shuffle fw (passes w) (TRAIN data)) = length (TRAIN data)"
    and "length (shuffle fw (Suc (passes w)) (VAL data)) = length (VAL data)"
  shows "\<exists>w' ba' wts'. run_epoch fw vgg data n epoch (w, ba, wts) = Inr (w', ba', wts')
           \<and> dataloader_len (length (TRAIN data)) = 125
           \<and> optimizer_steps (emitted w w') = 63
           \<and> optimizer_steps (emitted w w') = nat \<lceil>500 / (8::real)\<rceil>
           \<and> length (no_grad_passes (emitted w w')) = nat \<lceil>real (length (VAL data)) / 8\<rceil>"
proof -
  have ne: "TRAIN data \<noteq> []"
  proof
    assume "TRAIN data = []"
    then have "length (TRAIN data) = 0" by simp
    with assms(1) show False by simp
  qed
  from run_epoch_result [OF ne assms(2), of fw vgg epoch n w ba wts]
  obtain w' ba' wts' where re: "run_epoch fw vgg data n epoch (w, ba, wts) = Inr (w', ba', wts')"
    by (metis prod_cases3)
  from run_epoch_trace [OF re] obtain es where
    es: "trace w' = trace w @ es"
      "optimizer_steps es
         = min (length (batches batch_size (shuffle fw (passes w) (TRAIN data))))
             ((dataloader_len (length (TRAIN data)) + 1) div 2)"
      "no_grad_passes es
         = map (\<lambda>b. Forward False True (length b))
             (batches batch_size (shuffle fw (Suc (passes w)) (VAL data)))"
    by blast
  have tb: "dataloader_len (length (TRAIN data)) = 125"
    by (simp add: assms(1) dataloader_len_def batch_size_def)
  have "optimizer_steps es = 63"
    using es(2) assms(3) tb by (simp add: dataloader_len_batches)
  moreover have "length (no_grad_passes es) = nat \<lceil>real (length (VAL data)) / 8\<rceil>"
    using es(3) assms(4) by (simp add: dataloader_len_batches dataloader_len_ceiling)
  moreover have "nat \<lceil>500 / (8::real)\<rceil> = 63"
    by simp
  ultimately show ?thesis
    using re tb emitted_append [OF es(1)] by auto
qed

theorem run_epoch_steps_witness:
  "length (TRAIN toy_data) = 1000 \<and> VAL toy_data \<noteq> []
   \<and> length (shuffle toy_fw (passes (toy_world 0)) (TRAIN toy_data)) = length (TRAIN toy_data)
   \<and> length (shuffle toy_fw (Suc (passes (toy_world 0))) (VAL toy_data)) = length (VAL toy_data)
   \<and> (\<exists>w' ba' wts'.
          run_epoch toy_fw toy_vgg toy_data 2 0 (toy_world 0, 0, toy_vgg) = Inr (w', ba', wts')
        \<and> dataloader_len (length (TRAIN toy_data)) = 125
        \<and> optimizer_steps (emitted (toy_world 0) w') = 63
        \<and> optimizer_steps (emitted (toy_world 0) w') = nat \<lceil>500 / (8::real)\<rceil>
        \<and> length (no_grad_passes (emitted (toy_world 0) w'))
            = nat \<lceil>real (length (VAL toy_data)) / 8\<rceil>)"
proof -
  have l: "length (TRAIN toy_data) = 1000"
    by (simp add: toy_data_def)
  have v: "VAL toy_data \<noteq> []"
    by (simp add: toy_data_def toy_test_def)
  note s1 = toy_shuffle_length [of "passes (toy_world 0)" "TRAIN toy_data"]
  note s2 = toy_shuffle_length [of "Suc (passes (toy_world 0))" "VAL toy_data"]
  show ?thesis
    using l v s1 s2 run_epoch_steps [OF l v s1 s2, of toy_vgg 2 0 0 toy_vgg]
    by simp
qed

text \<open>
  C7. Every epoch on non-empty splits, from any state, first runs its training phase and
  then returns with a trace that continues the training phase's trace by the validation
  events and the epoch's result line, and by nothing else. The validation events hold
  one forward pass per batch of the validation pass, each in evaluation mode and without
  gradients, and the batches together are the whole validation split; they hold no
  backward pass and no optimizer step. The validation loss and accuracy of the result
  line are the accumulated per-batch losses and the number of correctly classified
  validation samples, each divided by the size of the split, taken at the tensor values
  the training phase left. At the end of the epoch the model's tensors and the optimizer
  are as the training phase left them.
\<close>

theorem run_epoch_validation:
  assumes "wf_vgg vgg (heap w)" "TRAIN data \<noteq> []" "VAL data \<noteq> []"
    and "\<forall>k. mset (shuffle fw k (VAL data)) = mset (VAL data)"
  shows "\<exists>w2 lt ac w' ba' wts' ev.
           train_phase fw vgg (dataloader_len (length (TRAIN data))) (TRAIN data)
               (emit (Print_epoch epoch n) w) = (w2, lt, ac)
         \<and> run_epoch fw vgg data n epoch (w, ba, wts) = Inr (w', ba', wts')
         \<and> passes w2 = Suc (passes w)
         \<and> trace w' = trace w2 @ ev
               @ [Print_epoch_result epoch
                    (lt * 2 / real (length (TRAIN data)))
                    (real (ac * 2) / real (length (TRAIN data)))
                    (sum_list (map (criterion fw (tensor_values vgg (heap w2)))
                        (batches batch_size (shuffle fw (passes w2) (VAL data))))
                      / real (length (VAL data)))
                    (accuracy fw (tensor_values vgg (heap w2)) (VAL data))]
         \<and> forward_passes ev
             = map (\<lambda>b. Forward False True (length b))
                 (batches batch_size (shuffle fw (passes w2) (VAL data)))
         \<and> mset (concat (batches batch_size (shuffle fw (passes w2) (VAL data))))
             = mset (VAL data)
         \<and> optimizer_steps ev = 0 \<and> Backward \<notin> set ev
         \<and> tensor_values vgg (heap w') = tensor_values vgg (heap w2)
         \<and> optim w' = optim w2"
proof -
  from run_epoch_result [OF assms(2,3), of fw vgg epoch n w ba wts]
  obtain w2 lt ac w3 lv av w4 where
    tp: "train_phase fw vgg (dataloader_len (length (TRAIN data))) (TRAIN data)
               (emit (Print_epoch epoch n) w) = (w2, lt, ac)"
    and vp: "val_phase fw vgg (dataloader_len (length (VAL data))) (VAL data) w2 = (w3, lv, av)"
    and w4: "w4 = emit (Print_epoch_result epoch (lt * 2 / real (length (TRAIN data)))
                        (real (ac * 2) / real (length (TRAIN data)))
                        (lv / real (length (VAL data)))
                        (real av / real (length (VAL data)))) w3"
    and re: "run_epoch fw vgg data n epoch (w, ba, wts)
             = Inr (if ba < real av / real (length (VAL data))
                    then (w4\<lparr>heap := snd (deepcopy vgg (heap w4))\<rparr>,
                          real av / real (length (VAL data)),
                          fst (deepcopy vgg (heap w4)))
                    else (w4, ba, wts))"
    by blast
  let ?bs = "batches batch_size (shuffle fw (passes w2) (VAL data))"
  let ?vals = "tensor_values vgg (heap w2)"
  have t: "passes w2 = Suc (passes w)" "used (heap w2) = used (heap w)"
    using train_phase_result [OF tp] by (simp_all add: emit_def)
  from val_phase_result [OF vp] obtain ev where
    v: "heap w3 = heap w2" "optim w3 = optim w2"
       "lv = sum_list (map (criterion fw ?vals) ?bs)"
       "av = sum_list (map (n_correct fw ?vals) ?bs)"
       "trace w3 = trace w2 @ ev" "optimizer_steps ev = 0"
       "forward_passes ev = map (\<lambda>b. Forward False True (length b)) ?bs"
    by blast
  from val_phase_events [OF vp] v(5) have nb: "Backward \<notin> set ev"
    by auto
  have p: "mset (shuffle fw (passes w2) (VAL data)) = mset (VAL data)"
    using assms(4) by simp
  have cover: "mset (concat ?bs) = mset (VAL data)"
    using p by (simp add: concat_batches batch_size_def)
  have acc: "real av / real (length (VAL data)) = accuracy fw ?vals (VAL data)"
    using v(4) accuracy_batches [OF p] by simp
  let ?line = "Print_epoch_result epoch
                    (lt * 2 / real (length (TRAIN data)))
                    (real (ac * 2) / real (length (TRAIN data)))
                    (sum_list (map (criterion fw ?vals) ?bs) / real (length (VAL data)))
                    (accuracy fw ?vals (VAL data))"
  have w4': "trace w4 = trace w2 @ ev @ [?line]" "heap w4 = heap w2" "optim w4 = optim w2"
    using v(1,2,3,5) acc by (simp_all add: w4 emit_def)
  obtain w' ba' wts' where res: "run_epoch fw vgg data n epoch (w, ba, wts) = Inr (w', ba', wts')"
    using re by (metis prod_cases3)
  have valid: "\<forall>a \<in> snd ` set vgg. a < used (heap w2)"
    using assms(1) t(2) by (simp add: wf_vgg_iff)
  have fields: "trace w' = trace w4" "optim w' = optim w4"
    using re res by (auto split: if_splits)
  have same: "tensor_values vgg (heap w') = tensor_values vgg (heap w2)"
  proof (cases "ba < real av / real (length (VAL data))")
    case True
    obtain sd h' where dc: "deepcopy vgg (heap w2) = (sd, h')"
      by (cases "deepcopy vgg (heap w2)")
    have "heap w' = h'"
      using re res True dc w4'(2) by simp
    then show ?thesis
      using deepcopy_result [OF dc] valid by (intro tensor_values_frame) auto
  next
    case False
    then have "heap w' = heap w4"
      using re res by simp
    then show ?thesis by (simp add: w4'(2))
  qed
  show ?thesis
    using tp res t(1) fields w4'(1,3) v(6,7) cover nb same by auto
qed

theorem run_epoch_validation_witness:
  "wf_vgg toy_vgg (heap (toy_world 0)) \<and> TRAIN toy_val_data \<noteq> [] \<and> VAL toy_val_data \<noteq> []
   \<and> (\<forall>k. mset (shuffle toy_fw k (VAL toy_val_data)) = mset (VAL toy_val_data))
   \<and> (\<exists>w2 lt ac w' ba' wts' ev.
           train_phase toy_fw toy_vgg (dataloader_len (length (TRAIN toy_val_data)))
               (TRAIN toy_val_data) (emit (Print_epoch 0 2) (toy_world 0)) = (w2, lt, ac)
         \<and> run_epoch toy_fw toy_vgg toy_val_data 2 0 (toy_world 0, 0, toy_vgg)
             = Inr (w', ba', wts')
         \<and> trace w' = trace w2 @ ev
               @ [Print_epoch_result 0
                    (lt * 2 / real (length (TRAIN toy_val_data)))
                    (real (ac * 2) / real (length (TRAIN toy_val_data)))
                    (sum_list (map (criterion toy_fw (tensor_values toy_vgg (heap w2)))
                        (batches batch_size (shuffle toy_fw (passes w2) (VAL toy_val_data))))
                      / real (length (VAL toy_val_data)))
                    (accuracy toy_fw (tensor_values toy_vgg (heap w2)) (VAL toy_val_data))]
         \<and> forward_passes ev = [Forward False True 8, Forward False True 1]
         \<and> optimizer_steps ev = 0 \<and> Backward \<notin> set ev
         \<and> tensor_values toy_vgg (heap w') = tensor_values toy_vgg (heap w2)
         \<and> optim w' = optim w2)
   \<and> emitted (toy_world 0) (fst toy_epoch)
       = [Print_epoch 0 2, Print_training_batch 0 (7 / 2),
          Zero_grad, Forward True False 8, Backward, Optimizer_step,
          Zero_grad, Forward True False 8, Backward, Optimizer_step,
          Zero_grad, Forward True False 8, Backward, Optimizer_step,
          Zero_grad, Forward True False 8, Backward, Optimizer_step,
          Print_validation_batch 0 2,
          Zero_grad, Forward False True 8, Zero_grad, Forward False True 1,
          Print_epoch_result 0 (4 / 25) (8 / 25) (1 / 72) (8 / 9)]
   \<and> tensor_values toy_vgg (heap (fst toy_epoch)) = [4]"
proof -
  have wf: "wf_vgg toy_vgg (heap (toy_world 0))"
    by code_simp
  have t: "TRAIN toy_val_data \<noteq> []" and v: "VAL toy_val_data \<noteq> []"
    by (simp_all add: toy_val_data_def toy_test_def)
  have p: "\<forall>k. mset (shuffle toy_fw k (VAL toy_val_data)) = mset (VAL toy_val_data)"
    by (simp add: toy_shuffle_perm)
  have bs: "map (\<lambda>b. Forward False True (length b))
              (batches batch_size (shuffle toy_fw (Suc (passes (toy_world 0))) (VAL toy_val_data)))
            = [Forward False True 8, Forward False True 1]"
    by code_simp
  from run_epoch_validation [OF wf t v p, where epoch = 0 and n = 2 and ba = 0 and wts = toy_vgg]
  obtain w2 lt ac w' ba' wts' ev where
    all: "train_phase toy_fw toy_vgg (dataloader_len (length (TRAIN toy_val_data)))
               (TRAIN toy_val_data) (emit (Print_epoch 0 2) (toy_world 0)) = (w2, lt, ac)
         \<and> run_epoch toy_fw toy_vgg toy_val_data 2 0 (toy_world 0, 0, toy_vgg)
             = Inr (w', ba', wts')
         \<and> passes w2 = Suc (passes (toy_world 0))
         \<and> trace w' = trace w2 @ ev
               @ [Print_epoch_result 0
                    (lt * 2 / real (length (TRAIN toy_val_data)))
                    (real (ac * 2) / real (length (TRAIN toy_val_data)))
                    (sum_list (map (criterion toy_fw (tensor_values toy_vgg (heap w2)))
                        (batches batch_size (shuffle toy_fw (passes w2) (VAL toy_val_data))))
                      / real (length (VAL toy_val_data)))
                    (accuracy toy_fw (tensor_values toy_vgg (heap w2)) (VAL toy_val_data))]
         \<and> forward_passes ev
             = map (\<lambda>b. Forward False True (length b))
                 (batches batch_size (shuffle toy_fw (passes w2) (VAL toy_val_data)))
         \<and> mset (concat (batches batch_size (shuffle toy_fw (passes w2) (VAL toy_val_data))))
             = mset (VAL toy_val_data)
         \<and> optimizer_steps ev = 0 \<and> Backward \<notin> set ev
         \<and> tensor_values toy_vgg (heap w') = tensor_values toy_vgg (heap w2)
         \<and> optim w' = optim w2"
    by (elim exE) (rule that)
  have r: "train_phase toy_fw toy_vgg (dataloader_len (length (TRAIN toy_val_data)))
               (TRAIN toy_val_data) (emit (Print_epoch 0 2) (toy_world 0)) = (w2, lt, ac)"
       "run_epoch toy_fw toy_vgg toy_val_data 2 0 (toy_world 0, 0, toy_vgg)
             = Inr (w', ba', wts')"
       "passes w2 = Suc (passes (toy_world 0))"
       "trace w' = trace w2 @ ev
               @ [Print_epoch_result 0
                    (lt * 2 / real (length (TRAIN toy_val_data)))
                    (real (ac * 2) / real (length (TRAIN toy_val_data)))
                    (sum_list (map (criterion toy_fw (tensor_values toy_vgg (heap w2)))
                        (batches batch_size (shuffle toy_fw (passes w2) (VAL toy_val_data))))
                      / real (length (VAL toy_val_data)))
                    (accuracy toy_fw (tensor_values toy_vgg (heap w2)) (VAL toy_val_data))]"
       "forward_passes ev
             = map (\<lambda>b. Forward False True (length b))
                 (batches batch_size (shuffle toy_fw (passes w2) (VAL toy_val_data)))"
       "optimizer_steps ev = 0" "Backward \<notin> set ev"
       "tensor_values toy_vgg (heap w') = tensor_values toy_vgg (heap w2)"
       "optim w' = optim w2"
    using all by blast+
  have f: "forward_passes ev = [Forward False True 8, Forward False True 1]"
    using r(5) bs by (simp only: r(3))
  have inst: "\<exists>w2 lt ac w' ba' wts' ev.
           train_phase toy_fw toy_vgg (dataloader_len (length (TRAIN toy_val_data)))
               (TRAIN toy_val_data) (emit (Print_epoch 0 2) (toy_world 0)) = (w2, lt, ac)
         \<and> run_epoch toy_fw toy_vgg toy_val_data 2 0 (toy_world 0, 0, toy_vgg)
             = Inr (w', ba', wts')
         \<and> trace w' = trace w2 @ ev
               @ [Print_epoch_result 0
                    (lt * 2 / real (length (TRAIN toy_val_data)))
                    (real (ac * 2) / real (length (TRAIN toy_val_data)))
                    (sum_list (map (criterion toy_fw (tensor_values toy_vgg (heap w2)))
                        (batches batch_size (shuffle toy_fw (passes w2) (VAL toy_val_data))))
                      / real (length (VAL toy_val_data)))
                    (accuracy toy_fw (tensor_values toy_vgg (heap w2)) (VAL toy_val_data))]
         \<and> forward_passes ev = [Forward False True 8, Forward False True 1]
         \<and> optimizer_steps ev = 0 \<and> Backward \<notin> set ev
         \<and> tensor_values toy_vgg (heap w') = tensor_values toy_vgg (heap w2)
         \<and> optim w' = optim w2"
    using r(1,2,4,6,7,8,9) f by blast
  have tr: "emitted (toy_world 0) (fst toy_epoch)
       = [Print_epoch 0 2, Print_training_batch 0 (7 / 2),
          Zero_grad, Forward True False 8, Backward, Optimizer_step,
          Zero_grad, Forward True False 8, Backward, Optimizer_step,
          Zero_grad, Forward True False 8, Backward, Optimizer_step,
          Zero_grad, Forward True False 8, Backward, Optimizer_step,
          Print_validation_batch 0 2,
          Zero_grad, Forward False True 8, Zero_grad, Forward False True 1,
          Print_epoch_result 0 (4 / 25) (8 / 25) (1 / 72) (8 / 9)]"
    by code_simp
  have vals: "tensor_values toy_vgg (heap (fst toy_epoch)) = [4]"
    by code_simp
  show ?thesis
    using wf t v p inst tr vals by blast
qed

section \<open>The claims about \<open>train_model\<close>\<close>

text \<open>
  C4. On non-empty training and validation splits \<open>train_model\<close> returns, having printed
  one validation accuracy per epoch. The snapshot \<open>best_model_wts\<close> it holds at the end
  of the epoch loop has, on the validation split, an accuracy at least as large as every
  one of the printed accuracies, and the model returned has exactly the tensor values of
  that snapshot. The model is well formed in the store, and every pass over the
  validation loader delivers the validation split in some order.
\<close>

theorem train_model_returns_best:
  assumes "wf_vgg vgg (heap w)" "TRAIN data \<noteq> []" "VAL data \<noteq> []"
    and "\<forall>k. mset (shuffle fw k (VAL data)) = mset (VAL data)"
  shows "\<exists>w1 best_acc best_model_wts w'.
           train_epochs fw vgg data n w = Inr (w1, best_acc, best_model_wts)
         \<and> train_model fw vgg data n w = Inr w'
         \<and> length (printed_val_acc (emitted w w')) = n
         \<and> (\<forall>a \<in> set (printed_val_acc (emitted w w')).
               a \<le> accuracy fw (tensor_values best_model_wts (heap w1)) (VAL data))
         \<and> tensor_values vgg (heap w') = tensor_values best_model_wts (heap w1)"
proof -
  obtain wts0 h0 where dc: "deepcopy vgg (heap w) = (wts0, h0)"
    by (cases "deepcopy vgg (heap w)")
  note st = train_epochs_start [OF dc assms(1)]
  let ?w0 = "w\<lparr>heap := h0\<rparr>"
  have wf0: "wf_vgg vgg (heap ?w0)" and sn0: "snapshot_of vgg wts0 (heap ?w0)"
    using st(1,2) by simp_all
  from epochs_loop_total [OF assms(2,3), of fw vgg n "[0..<n]" "(?w0, 0, wts0)"]
  obtain w1 ba wts where
    el: "epochs_loop fw vgg data n [0..<n] (?w0, 0, wts0) = Inr (w1, ba, wts)"
    by (metis prod_cases3)
  have te: "train_epochs fw vgg data n w = Inr (w1, ba, wts)"
    using dc el by (simp add: train_epochs_def)
  from epochs_loop_keep [OF el wf0 sn0] obtain tr where
    k: "wf_vgg vgg (heap w1)" "snapshot_of vgg wts (heap w1)"
       "trace w1 = trace ?w0 @ tr" "length (printed_val_acc tr) = length [0..<n]"
    by blast
  have "0 \<le> accuracy fw (tensor_values wts0 (heap ?w0)) (VAL data)"
    by (rule accuracy_nonneg)
  from epochs_loop_best [OF el wf0 sn0 assms(4) this] obtain tr' where
    b: "ba \<le> accuracy fw (tensor_values wts (heap w1)) (VAL data)"
       "trace w1 = trace ?w0 @ tr'" "\<forall>a \<in> set (printed_val_acc tr'). a \<le> ba"
    by blast
  have same: "tr' = tr"
    using k(3) b(2) by simp
  let ?w2 = "emit (Print_best_acc ba) w1"
  have wf2: "wf_vgg vgg (heap ?w2)" "snapshot_of vgg wts (heap ?w2)"
    using k(1,2) by (simp_all add: emit_def)
  from load_state_dict_values [OF wf2] obtain h where
    ld: "load_state_dict vgg wts (heap ?w2) = Inr h"
    and vals: "tensor_values vgg h = tensor_values wts (heap ?w2)"
    by blast
  let ?w' = "?w2\<lparr>heap := h\<rparr>"
  have tm: "train_model fw vgg data n w = Inr ?w'"
    using te ld by (simp add: train_model_def Let_def)
  have "trace ?w' = trace w @ (tr @ [Print_best_acc ba])"
    using k(3) by (simp add: emit_def)
  then have "emitted w ?w' = tr @ [Print_best_acc ba]"
    by (rule emitted_append)
  then have pr: "printed_val_acc (emitted w ?w') = printed_val_acc tr"
    by (simp add: printed_val_acc_append) (simp add: printed_val_acc_def)
  have "length (printed_val_acc (emitted w ?w')) = n"
    using pr k(4) by simp
  moreover have "\<forall>a \<in> set (printed_val_acc (emitted w ?w')).
               a \<le> accuracy fw (tensor_values wts (heap w1)) (VAL data)"
    using pr b(1,3) same by auto
  moreover have "tensor_values vgg (heap ?w') = tensor_values wts (heap w1)"
    using vals by (simp add: emit_def)
  ultimately show ?thesis
    using te tm by blast
qed

theorem train_model_returns_best_witness:
  "wf_vgg toy_vgg (heap (toy_world 0)) \<and> TRAIN toy_late_data \<noteq> [] \<and> VAL toy_late_data \<noteq> []
   \<and> (\<forall>k. mset (shuffle toy_fw k (VAL toy_late_data)) = mset (VAL toy_late_data))
   \<and> (\<exists>w1 best_acc best_model_wts w'.
           train_epochs toy_fw toy_vgg toy_late_data 2 (toy_world 0)
             = Inr (w1, best_acc, best_model_wts)
         \<and> train_model toy_fw toy_vgg toy_late_data 2 (toy_world 0) = Inr w'
         \<and> length (printed_val_acc (emitted (toy_world 0) w')) = 2
         \<and> (\<forall>a \<in> set (printed_val_acc (emitted (toy_world 0) w')).
               a \<le> accuracy toy_fw (tensor_values best_model_wts (heap w1)) (VAL toy_late_data))
         \<and> tensor_values toy_vgg (heap w') = tensor_values best_model_wts (heap w1))"
proof -
  have wf: "wf_vgg toy_vgg (heap (toy_world 0))"
    by code_simp
  have t: "TRAIN toy_late_data \<noteq> []" and v: "VAL toy_late_data \<noteq> []"
    by (simp_all add: toy_late_data_def)
  have p: "\<forall>k. mset (shuffle toy_fw k (VAL toy_late_data)) = mset (VAL toy_late_data)"
    by (simp add: toy_shuffle_perm)
  show ?thesis
    using wf t v p train_model_returns_best [OF wf t v p, of 2]
    by simp
qed

text \<open>
  C10. If \<open>train_model\<close> returns and none of the validation accuracies it printed is
  greater than zero, the model returned has exactly the tensor values it had on entry.
  On the single-image data set the small instance makes two optimizer steps in two
  epochs, is wrong on the validation image after each, and comes back with its entry
  value.
\<close>

theorem train_model_keeps_entry_weights:
  assumes "wf_vgg vgg (heap w)"
    and "train_model fw vgg data n w = Inr w'"
    and "\<forall>a \<in> set (printed_val_acc (emitted w w')). a \<le> 0"
  shows "tensor_values vgg (heap w') = tensor_values vgg (heap w)"
proof -
  from train_model_Inr [OF assms(2)] obtain wts0 h0 w1 ba wts h where
    dc: "deepcopy vgg (heap w) = (wts0, h0)"
    and el: "epochs_loop fw vgg data n [0..<n] (w\<lparr>heap := h0\<rparr>, 0, wts0) = Inr (w1, ba, wts)"
    and ld: "load_state_dict vgg wts (heap w1) = Inr h"
    and w': "w' = (emit (Print_best_acc ba) w1)\<lparr>heap := h\<rparr>"
    by blast
  note st = train_epochs_start [OF dc assms(1)]
  let ?w0 = "w\<lparr>heap := h0\<rparr>"
  have wf0: "wf_vgg vgg (heap ?w0)" and sn0: "snapshot_of vgg wts0 (heap ?w0)"
    using st(1,2) by simp_all
  from epochs_loop_keep [OF el wf0 sn0] obtain tr where
    k: "wf_vgg vgg (heap w1)" "snapshot_of vgg wts (heap w1)"
       "trace w1 = trace ?w0 @ tr"
       "(\<forall>a \<in> set (printed_val_acc tr). a \<le> 0) \<longrightarrow>
          ba = 0 \<and> tensor_values wts (heap w1) = tensor_values wts0 (heap ?w0)"
    by blast
  have "trace w' = trace w @ (tr @ [Print_best_acc ba])"
    using k(3) by (simp add: w' emit_def)
  then have "emitted w w' = tr @ [Print_best_acc ba]"
    by (rule emitted_append)
  then have "printed_val_acc (emitted w w') = printed_val_acc tr"
    by (simp add: printed_val_acc_append) (simp add: printed_val_acc_def)
  with assms(3) k(4) have "tensor_values wts (heap w1) = tensor_values wts0 h0"
    by simp
  moreover from load_state_dict_values [OF k(1,2)] ld
  have "tensor_values vgg h = tensor_values wts (heap w1)"
    by auto
  ultimately show ?thesis
    using st(3) by (simp add: w')
qed

theorem train_model_keeps_entry_weights_witness:
  "wf_vgg toy_vgg (heap (toy_world 0))
   \<and> train_model toy_fw toy_vgg toy_small_data 2 (toy_world 0) = Inr toy_trained
   \<and> printed_val_acc (emitted (toy_world 0) toy_trained) = [0, 0]
   \<and> optimizer_steps (emitted (toy_world 0) toy_trained) = 2
   \<and> tensor_values toy_vgg (heap toy_trained) = tensor_values toy_vgg (heap (toy_world 0))"
proof -
  have wf: "wf_vgg toy_vgg (heap (toy_world 0))"
    by code_simp
  have "\<not> isl (train_model toy_fw toy_vgg toy_small_data 2 (toy_world 0))"
    by code_simp
  then have r: "train_model toy_fw toy_vgg toy_small_data 2 (toy_world 0) = Inr toy_trained"
    by (simp add: toy_trained_def)
  have p: "printed_val_acc (emitted (toy_world 0) toy_trained) = [0, 0]"
    by code_simp
  then have z: "\<forall>a \<in> set (printed_val_acc (emitted (toy_world 0) toy_trained)). a \<le> 0"
    by simp
  have s: "optimizer_steps (emitted (toy_world 0) toy_trained) = 2"
    by code_simp
  show ?thesis
    using wf r p s train_model_keeps_entry_weights [OF wf r z] by simp
qed

end
